theory Spec2Isabelle
  imports Complex_Main
begin

section \<open>Data model (src/types/index.ts)\<close>


datatype json_number = Number real | Null


fun ToNumber :: "json_number \<Rightarrow> real" where
  "ToNumber (Number r) = r"
| "ToNumber Null = 0"

text \<open>
  \<open>attempts\<close> only ever holds the values \<open>0, 1, 2, ...\<close> (it starts at 0, is incremented
  by one and is reset to 0), so it is a \<open>nat\<close>; \<open>max_retries\<close> is whatever number the
  caller passed, as the file holds it. Timestamps are ISO-8601 strings in the source,
  produced by \<open>toISOString\<close> and compared through \<open>new Date(...)\<close>; they are modelled
  by the millisecond count they denote. An optional field (\<open>?:\<close>) is an \<open>option\<close>,
  \<open>None\<close> standing for \<open>undefined\<close> (the key is dropped by \<open>JSON.stringify\<close>). A
  string is a list of UTF-16 code units below 256.
\<close>

datatype JobState = PENDING | PROCESSING | COMPLETED | FAILED | DEAD

record Job =
  id_job :: string
  command :: string
  state :: JobState
  attempts :: nat
  max_retries :: json_number
  created_at :: int
  updated_at :: int
  next_retry_at :: "int option"
  error_message :: "string option"
  output_job :: "string option"
  worker_id :: "string option"

text \<open>
  \<open>Partial<Job>\<close>: every key may be absent (\<open>None\<close>) or present (\<open>Some v\<close>). For an
  optional field a present key may carry \<open>undefined\<close>, which is \<open>Some None\<close>.
\<close>

record JobUpdates =
  u_id :: "string option"
  u_command :: "string option"
  u_state :: "JobState option"
  u_attempts :: "nat option"
  u_max_retries :: "json_number option"
  u_created_at :: "int option"
  u_updated_at :: "int option"
  u_next_retry_at :: "int option option"
  u_error_message :: "string option option"
  u_output :: "string option option"
  u_worker_id :: "string option option"

definition no_updates :: JobUpdates where
  "no_updates =
     \<lparr>u_id = None, u_command = None, u_state = None, u_attempts = None,
      u_max_retries = None, u_created_at = None, u_updated_at = None,
      u_next_retry_at = None, u_error_message = None, u_output = None,
      u_worker_id = None\<rparr>"

record QueueConfig =
  cfg_max_retries :: json_number
  cfg_backoff_base :: json_number
  cfg_worker_poll_interval :: json_number
  cfg_graceful_shutdown_timeout :: json_number

record JobResult =
  success :: bool
  r_output :: "string option"
  r_error :: "string option"
  exit_code :: "int option"

section \<open>Job storage (src/storage/JobStorage.ts)\<close>

text \<open>
  The store is the content of \<open>jobs.json\<close>: the list of job records, in file order (a
  missing file reads as the empty list). Every operation reads the whole list with
  \<open>readJobs\<close> and, when it changes something, writes the whole list back with
  \<open>writeJobs\<close>; an operation therefore is a function from the list to the new list and
  the value returned. \<open>readJobs\<close> and \<open>writeJobs\<close> each take the lock and release it
  before they return. Failures of the file system and of the lock (its timeout) are
  outside the model: every storage operation returns.
\<close>

type_synonym store = "Job list"

text \<open>\<open>jobs.push(job)\<close>: no check of the id.\<close>

definition addJob :: "Job \<Rightarrow> store \<Rightarrow> store" where
  "addJob job jobs = jobs @ [job]"

text \<open>\<open>Array.prototype.findIndex\<close>, with \<open>None\<close> for \<open>-1\<close>.\<close>

fun findIndex :: "('a \<Rightarrow> bool) \<Rightarrow> 'a list \<Rightarrow> nat option" where
  "findIndex P [] = None"
| "findIndex P (x # xs) = (if P x then Some 0 else map_option Suc (findIndex P xs))"

text \<open>One key of the object spread \<open>{...job, ...updates}\<close>.\<close>

definition spread_key :: "'a option \<Rightarrow> 'a \<Rightarrow> 'a" where
  "spread_key u old = (case u of None \<Rightarrow> old | Some v \<Rightarrow> v)"

text \<open>\<open>{...jobs[index], ...updates, updated_at: new Date().toISOString()}\<close>\<close>

definition spread :: "Job \<Rightarrow> JobUpdates \<Rightarrow> int \<Rightarrow> Job" where
  "spread job updates now =
     \<lparr>id_job = spread_key (u_id updates) (id_job job),
      command = spread_key (u_command updates) (command job),
      state = spread_key (u_state updates) (state job),
      attempts = spread_key (u_attempts updates) (attempts job),
      max_retries = spread_key (u_max_retries updates) (max_retries job),
      created_at = spread_key (u_created_at updates) (created_at job),
      updated_at = now,
      next_retry_at = spread_key (u_next_retry_at updates) (next_retry_at job),
      error_message = spread_key (u_error_message updates) (error_message job),
      output_job = spread_key (u_output updates) (output_job job),
      worker_id = spread_key (u_worker_id updates) (worker_id job)\<rparr>"

definition updateJob :: "int \<Rightarrow> string \<Rightarrow> JobUpdates \<Rightarrow> store \<Rightarrow> bool \<times> store" where
  "updateJob now jobId updates jobs =
     (case findIndex (\<lambda>j. id_job j = jobId) jobs of
        None \<Rightarrow> (False, jobs)
      | Some index \<Rightarrow> (True, jobs[index := spread (jobs ! index) updates now]))"

text \<open>\<open>jobs.find(j => j.id === jobId) || null\<close>\<close>

definition getJob :: "string \<Rightarrow> store \<Rightarrow> Job option" where
  "getJob jobId jobs = find (\<lambda>j. id_job j = jobId) jobs"

definition getJobsByState :: "JobState \<Rightarrow> store \<Rightarrow> Job list" where
  "getJobsByState st jobs = filter (\<lambda>j. state j = st) jobs"

text \<open>The predicate of the filter in \<open>getNextPendingJob\<close>.\<close>

definition available :: "int \<Rightarrow> Job \<Rightarrow> bool" where
  "available now j =
     (if state j \<noteq> PENDING \<and> state j \<noteq> FAILED then False
      else (case next_retry_at j of Some t \<Rightarrow> t \<le> now | None \<Rightarrow> True))"

text \<open>
  \<open>Array.prototype.sort\<close> is stable, and so is \<open>sort_key\<close>; \<open>availableJobs[0] || null\<close>
  is the head of the sorted list, or nothing.
\<close>

definition getNextPendingJob :: "int \<Rightarrow> store \<Rightarrow> Job option" where
  "getNextPendingJob now jobs =
     (let availableJobs = filter (available now) jobs
      in case sort_key created_at availableJobs of [] \<Rightarrow> None | j # _ \<Rightarrow> Some j)"

section \<open>Queue manager (QueueManager, ConfigManager, JobExecutor)\<close>

text \<open>
  An exception thrown by the source is a value: an \<open>Error\<close> that the source constructs,
  or the \<open>RangeError\<close> of \<open>Date.prototype.toISOString\<close>, each with its message.
\<close>

datatype error = Error string | RangeError string

text \<open>The string of an exception in a template literal.\<close>

fun error_toString :: "error \<Rightarrow> string" where
  "error_toString (Error m) = ''Error: '' @ m"
| "error_toString (RangeError m) = ''RangeError: '' @ m"

text \<open>
  \<open>new Date(x).toISOString()\<close> for a finite \<open>x\<close>: the time value is \<open>x\<close> truncated to
  an integer when \<open>x\<close> is within 8.64e15 milliseconds of the epoch; otherwise the date is
  invalid and \<open>toISOString\<close> throws.
\<close>

definition ToIntegerOrInfinity :: "real \<Rightarrow> int" where
  "ToIntegerOrInfinity x = (if x \<ge> 0 then \<lfloor>x\<rfloor> else \<lceil>x\<rceil>)"

definition date_toISOString :: "real \<Rightarrow> error + int" where
  "date_toISOString x =
     (if \<bar>x\<bar> \<le> 8640000000000000 then Inr (ToIntegerOrInfinity x)
      else Inl (RangeError ''Invalid time value''))"

text \<open>
  \<open>String.prototype.trim\<close>: the white space among the code units below 256 is tab,
  line feed, vertical tab, form feed, carriage return, space and the no-break space.
\<close>

definition is_space :: "char \<Rightarrow> bool" where
  "is_space c =
     (c \<in> set [CHR 0x09, CHR 0x0A, CHR 0x0B, CHR 0x0C, CHR 0x0D, CHR 0x20, CHR 0xA0])"

definition trim :: "string \<Rightarrow> string" where
  "trim s = rev (dropWhile is_space (rev (dropWhile is_space s)))"

text \<open>\<open>JobExecutor.validateCommand\<close>: \<open>None\<close> is \<open>{ valid: true }\<close>, \<open>Some e\<close> the error.\<close>

definition validateCommand :: "string \<Rightarrow> string option" where
  "validateCommand cmd =
     (if cmd = [] \<or> length (trim cmd) = 0 then Some ''Command cannot be empty''
      else if length cmd > 10000 then Some ''Command is too long''
      else None)"


text \<open>
  The three updates that \<open>processJob\<close> and \<open>handleJobFailure\<close> pass to \<open>updateJob\<close>.
\<close>

definition processing_updates :: "string \<Rightarrow> JobUpdates" where
  "processing_updates workerId =
     no_updates\<lparr>u_state := Some PROCESSING, u_worker_id := Some (Some workerId)\<rparr>"

definition completed_updates :: "string option \<Rightarrow> JobUpdates" where
  "completed_updates out =
     no_updates\<lparr>u_state := Some COMPLETED, u_output := Some out, u_worker_id := Some None\<rparr>"

definition dead_updates :: "nat \<Rightarrow> string \<Rightarrow> JobUpdates" where
  "dead_updates newAttempts errorMessage =
     no_updates\<lparr>u_state := Some DEAD, u_attempts := Some newAttempts,
       u_error_message := Some (Some errorMessage), u_worker_id := Some None\<rparr>"

definition failed_updates :: "nat \<Rightarrow> string \<Rightarrow> int \<Rightarrow> JobUpdates" where
  "failed_updates newAttempts errorMessage nextRetryAt =
     no_updates\<lparr>u_state := Some FAILED, u_attempts := Some newAttempts,
       u_error_message := Some (Some errorMessage),
       u_next_retry_at := Some (Some nextRetryAt), u_worker_id := Some None\<rparr>"

text \<open>
  \<open>QueueManager.handleJobFailure\<close>. \<open>now\<close> is the reading of \<open>Date.now()\<close>, \<open>stamp\<close>
  the later one of \<open>updateJob\<close>. \<open>Math.pow(backoffBase, newAttempts)\<close> seconds, times
  1000, are added to \<open>now\<close>; \<open>toISOString\<close> of that date throws when it is out of
  range, before \<open>updateJob\<close> is called. The result is the exception thrown, if any, and
  the store afterwards (unchanged when nothing was written).
\<close>

definition handleJobFailure ::
  "QueueConfig \<Rightarrow> int \<Rightarrow> int \<Rightarrow> string \<Rightarrow> string \<Rightarrow> store \<Rightarrow> error option \<times> store" where
  "handleJobFailure cfg now stamp jobId errorMessage jobs =
     (case getJob jobId jobs of
        None \<Rightarrow> (None, jobs)
      | Some job \<Rightarrow>
          (let newAttempts = attempts job + 1
           in if real newAttempts \<ge> ToNumber (max_retries job)
              then (None, snd (updateJob stamp jobId (dead_updates newAttempts errorMessage) jobs))
              else (let backoffBase = ToNumber (cfg_backoff_base cfg);
                        delaySeconds = backoffBase ^ newAttempts
                    in case date_toISOString (real_of_int now + delaySeconds * 1000) of
                         Inl e \<Rightarrow> (Some e, jobs)
                       | Inr nextRetryAt \<Rightarrow>
                           (None, snd (updateJob stamp jobId
                              (failed_updates newAttempts errorMessage nextRetryAt) jobs)))))"

text \<open>
  \<open>QueueManager.processJob\<close>, in its two halves: up to the call of the executor, and
  from the executor's result on. \<open>result.error || 'Unknown error'\<close> takes the default
  for \<open>undefined\<close> and for the empty string. The executor always resolves. When
  \<open>handleJobFailure\<close> throws, the \<open>catch\<close> branch calls it again with the exception as
  the message; when that call throws too, \<open>processJob\<close> throws. The clock is read when
  the job is marked (\<open>t_mark\<close>), by \<open>handleJobFailure\<close> (\<open>t_now\<close>), by the
  \<open>updateJob\<close> that records the result (\<open>t_stamp\<close>), and by the two of them again in
  the \<open>catch\<close> branch.
\<close>

record Readings =
  t_mark :: int
  t_now :: int
  t_stamp :: int
  t_now_catch :: int
  t_stamp_catch :: int

definition markProcessing :: "int \<Rightarrow> string \<Rightarrow> string \<Rightarrow> store \<Rightarrow> store" where
  "markProcessing now jobId workerId jobs =
     snd (updateJob now jobId (processing_updates workerId) jobs)"

definition error_or_unknown :: "string option \<Rightarrow> string" where
  "error_or_unknown e = (case e of None \<Rightarrow> ''Unknown error'' | Some m \<Rightarrow> if m = [] then ''Unknown error'' else m)"

definition reportResult ::
  "QueueConfig \<Rightarrow> Readings \<Rightarrow> string \<Rightarrow> JobResult \<Rightarrow> store \<Rightarrow> (error + bool) \<times> store" where
  "reportResult cfg ts jobId result jobs =
     (if success result
      then (Inr True, snd (updateJob (t_stamp ts) jobId (completed_updates (r_output result)) jobs))
      else (case handleJobFailure cfg (t_now ts) (t_stamp ts) jobId
                   (error_or_unknown (r_error result)) jobs of
              (None, jobs') \<Rightarrow> (Inr False, jobs')
            | (Some e, jobs') \<Rightarrow>
                (case handleJobFailure cfg (t_now_catch ts) (t_stamp_catch ts) jobId
                        (''Unexpected error: '' @ error_toString e) jobs' of
                   (None, jobs'') \<Rightarrow> (Inr False, jobs'')
                 | (Some e', jobs'') \<Rightarrow> (Inl e', jobs''))))"

text \<open>
  The executor is a parameter: it maps the command to its result. The result of
  \<open>processJob\<close> is the value returned or the exception thrown, and the store afterwards.
\<close>

definition processJob ::
  "QueueConfig \<Rightarrow> (string \<Rightarrow> JobResult) \<Rightarrow> Readings \<Rightarrow> string \<Rightarrow> string \<Rightarrow> store
     \<Rightarrow> (error + bool) \<times> store" where
  "processJob cfg execute ts jobId workerId jobs =
     (case getJob jobId jobs of
        None \<Rightarrow> (Inr False, jobs)
      | Some job \<Rightarrow>
          reportResult cfg ts jobId (execute (command job))
            (markProcessing (t_mark ts) jobId workerId jobs))"

definition getNextJob :: "int \<Rightarrow> store \<Rightarrow> Job option" where
  "getNextJob now jobs = getNextPendingJob now jobs"

definition retry_updates :: JobUpdates where
  "retry_updates =
     no_updates\<lparr>u_state := Some PENDING, u_attempts := Some 0,
       u_error_message := Some None, u_next_retry_at := Some None\<rparr>"

definition retryDeadJob :: "int \<Rightarrow> string \<Rightarrow> store \<Rightarrow> bool \<times> store" where
  "retryDeadJob now jobId jobs =
     (case getJob jobId jobs of
        None \<Rightarrow> (False, jobs)
      | Some job \<Rightarrow>
          if state job \<noteq> DEAD then (False, jobs)
          else (True, snd (updateJob now jobId retry_updates jobs)))"

definition reset_updates :: JobUpdates where
  "reset_updates = no_updates\<lparr>u_state := Some PENDING, u_worker_id := Some None\<rparr>"

text \<open>
  \<open>QueueManager.resetStuckJobs\<close>: the loop runs over the list read at the start, while
  each \<open>updateJob\<close> reads and writes the store of the moment.
\<close>

fun resetLoop :: "int \<Rightarrow> Job list \<Rightarrow> nat \<Rightarrow> store \<Rightarrow> nat \<times> store" where
  "resetLoop now [] resetCount st = (resetCount, st)"
| "resetLoop now (job # rest) resetCount st =
     (if state job = PROCESSING
      then resetLoop now rest (resetCount + 1) (snd (updateJob now (id_job job) reset_updates st))
      else resetLoop now rest resetCount st)"

definition resetStuckJobs :: "int \<Rightarrow> store \<Rightarrow> nat \<times> store" where
  "resetStuckJobs now jobs = resetLoop now jobs 0 jobs"

section \<open>Workers (src/workers/WorkerManager.ts)\<close>

text \<open>
  A worker's \<open>processNextJob\<close> is an \<open>async\<close> function: it runs up to an \<open>await\<close> of
  a storage operation, and other workers run while it waits. The position of a worker in
  that code is its \<open>pc\<close>: between two polls (\<open>poll\<close> calls \<open>processNextJob\<close> again only
  when the previous call has ended); after \<open>getNextJob\<close> has returned a job;
  after \<open>processJob\<close> has read the job with \<open>getJob\<close>; after \<open>processJob\<close> has marked
  the job and started the command.
\<close>

datatype WorkerState = Idle | Busy | Stopping

datatype pc = Polling | Claimed string | Fetched string string | Executing string string

record Worker =
  w_id :: string
  w_state :: WorkerState
  currentJobId :: "string option"
  jobsCompleted :: nat
  jobsFailed :: nat
  isRunning :: bool
  pc :: pc

text \<open>The constructor of \<open>Worker\<close>, followed by \<open>start()\<close>.\<close>

definition started_worker :: "string \<Rightarrow> Worker" where
  "started_worker uuid =
     \<lparr>w_id = uuid, w_state = Idle, currentJobId = None, jobsCompleted = 0, jobsFailed = 0,
      isRunning = True, pc = Polling\<rparr>"

text \<open>
  The end of \<open>processNextJob\<close>: the counter, then the \<open>finally\<close> block.
\<close>

definition finish :: "bool \<Rightarrow> Worker \<Rightarrow> Worker" where
  "finish ok w =
     w\<lparr>jobsCompleted := (if ok then jobsCompleted w + 1 else jobsCompleted w),
       jobsFailed := (if ok then jobsFailed w else jobsFailed w + 1),
       currentJobId := None,
       w_state := (if isRunning w then Idle else Stopping),
       pc := Polling\<rparr>"

text \<open>
  One step of one worker, at clock \<open>now\<close>, on the store of the moment: \<open>getNextJob\<close>,
  \<open>getJob\<close>, the \<open>updateJob\<close> that marks the job, and the report of the result (taken
  as one step, with one reading of the clock). Each storage operation takes the lock for
  itself and releases it before it returns; no lock is held from one to the next.
  \<open>processNextJob\<close> counts an exception of \<open>processJob\<close> as a failed job.
\<close>

definition at_once :: "int \<Rightarrow> Readings" where
  "at_once now =
     \<lparr>t_mark = now, t_now = now, t_stamp = now, t_now_catch = now, t_stamp_catch = now\<rparr>"

definition worker_step ::
  "QueueConfig \<Rightarrow> (string \<Rightarrow> JobResult) \<Rightarrow> int \<Rightarrow> Worker \<Rightarrow> store \<Rightarrow> Worker \<times> store" where
  "worker_step cfg execute now w jobs =
     (case pc w of
        Polling \<Rightarrow>
          (if \<not> isRunning w \<or> w_state w \<noteq> Idle then (w, jobs)
           else (case getNextJob now jobs of
                   None \<Rightarrow> (w, jobs)
                 | Some job \<Rightarrow>
                     (w\<lparr>w_state := Busy, currentJobId := Some (id_job job),
                        pc := Claimed (id_job job)\<rparr>, jobs)))
      | Claimed jobId \<Rightarrow>
          (case getJob jobId jobs of
             None \<Rightarrow> (finish False w, jobs)
           | Some job \<Rightarrow> (w\<lparr>pc := Fetched jobId (command job)\<rparr>, jobs))
      | Fetched jobId cmd \<Rightarrow>
          (w\<lparr>pc := Executing jobId cmd\<rparr>, markProcessing now jobId (w_id w) jobs)
      | Executing jobId cmd \<Rightarrow>
          (let (r, jobs') = reportResult cfg (at_once now) jobId (execute cmd) jobs
           in (finish (case r of Inr ok \<Rightarrow> ok | Inl e \<Rightarrow> False) w, jobs')))"

text \<open>
  The worker manager with the files it shares with its workers: the job store, and
  whether \<open>workers.pid\<close> exists.
\<close>

record WorkerManager =
  workers :: "Worker list"
  pidFile :: bool
  isShuttingDown :: bool
  jobsFile :: store

text \<open>
  A schedule names, step by step, the worker whose pending storage operation is served
  next, with the clock at that moment.
\<close>

fun step_of :: "QueueConfig \<Rightarrow> (string \<Rightarrow> JobResult) \<Rightarrow> int \<Rightarrow> string \<Rightarrow> Worker list \<Rightarrow> store \<Rightarrow> Worker list \<times> store" where
  "step_of cfg execute now wid [] jobs = ([], jobs)"
| "step_of cfg execute now wid (w # ws) jobs =
     (if w_id w = wid
      then (let (w', jobs') = worker_step cfg execute now w jobs in (w' # ws, jobs'))
      else (let (ws', jobs') = step_of cfg execute now wid ws jobs in (w # ws', jobs')))"

definition step :: "QueueConfig \<Rightarrow> (string \<Rightarrow> JobResult) \<Rightarrow> string \<times> int \<Rightarrow> WorkerManager \<Rightarrow> WorkerManager" where
  "step cfg execute ev m =
     (let (ws', jobs') = step_of cfg execute (snd ev) (fst ev) (workers m) (jobsFile m)
      in m\<lparr>workers := ws', jobsFile := jobs'\<rparr>)"

definition run :: "QueueConfig \<Rightarrow> (string \<Rightarrow> JobResult) \<Rightarrow> (string \<times> int) list \<Rightarrow> WorkerManager \<Rightarrow> WorkerManager" where
  "run cfg execute schedule m = fold (step cfg execute) schedule m"

text \<open>\<open>WorkerManager.isRunning\<close>\<close>

definition managerIsRunning :: "WorkerManager \<Rightarrow> bool" where
  "managerIsRunning m = (length (workers m) > 0 \<or> pidFile m)"

text \<open>
  \<open>WorkerManager.start\<close>. The ids of the new workers (\<open>uuidv4()\<close>) come from \<open>uuid\<close>. The
  result is the manager once \<open>start\<close> has returned, with the count that
  \<open>resetStuckJobs\<close> gave: every worker has been constructed and started after the store
  was reset, and its first \<open>getNextJob\<close> is its first step.
\<close>

definition start :: "int \<Rightarrow> (nat \<Rightarrow> string) \<Rightarrow> int \<Rightarrow> WorkerManager \<Rightarrow> error + (nat \<times> WorkerManager)" where
  "start count uuid now m =
     (if count < 1 then Inl (Error ''Worker count must be at least 1'')
      else if managerIsRunning m then Inl (Error ''Workers are already running. Stop them first.'')
      else (let (resetCount, jobs') = resetStuckJobs now (jobsFile m);
                ws = map (\<lambda>i. started_worker (uuid i)) [0..<nat count]
            in Inr (resetCount, m\<lparr>jobsFile := jobs', workers := workers m @ ws, pidFile := True\<rparr>)))"

section \<open>The specification's vocabulary, and a fixture\<close>

text \<open>
  The specification's eligible job: in Pending or Failed state, with a scheduled retry
  time, if any, that has passed.
\<close>

definition eligible :: "int \<Rightarrow> Job \<Rightarrow> bool" where
  "eligible now j =
     ((state j = PENDING \<or> state j = FAILED) \<and>
      (next_retry_at j = None \<or> (\<exists>t. next_retry_at j = Some t \<and> t \<le> now)))"

text \<open>A job as \<open>enqueue\<close> creates it, for the concrete instances below.\<close>

definition example_job :: Job where
  "example_job =
     \<lparr>id_job = ''a'', command = ''echo ok'', state = PENDING, attempts = 0,
      max_retries = Number 3,
      created_at = 10, updated_at = 10, next_retry_at = None, error_message = None,
      output_job = None, worker_id = None\<rparr>"

text \<open>
  The specification's \<open>update\<close>: the given fields are merged and \<open>updated_at\<close> is
  stamped, field by field.
\<close>

definition merges_given_fields :: "Job \<Rightarrow> JobUpdates \<Rightarrow> int \<Rightarrow> Job \<Rightarrow> bool" where
  "merges_given_fields old u now new =
     (id_job new = (case u_id u of Some v \<Rightarrow> v | None \<Rightarrow> id_job old) \<and>
      command new = (case u_command u of Some v \<Rightarrow> v | None \<Rightarrow> command old) \<and>
      state new = (case u_state u of Some v \<Rightarrow> v | None \<Rightarrow> state old) \<and>
      attempts new = (case u_attempts u of Some v \<Rightarrow> v | None \<Rightarrow> attempts old) \<and>
      max_retries new = (case u_max_retries u of Some v \<Rightarrow> v | None \<Rightarrow> max_retries old) \<and>
      created_at new = (case u_created_at u of Some v \<Rightarrow> v | None \<Rightarrow> created_at old) \<and>
      updated_at new = now \<and>
      next_retry_at new = (case u_next_retry_at u of Some v \<Rightarrow> v | None \<Rightarrow> next_retry_at old) \<and>
      error_message new = (case u_error_message u of Some v \<Rightarrow> v | None \<Rightarrow> error_message old) \<and>
      output_job new = (case u_output u of Some v \<Rightarrow> v | None \<Rightarrow> output_job old) \<and>
      worker_id new = (case u_worker_id u of Some v \<Rightarrow> v | None \<Rightarrow> worker_id old))"

text \<open>\<open>ConfigManager.DEFAULT_CONFIG\<close>\<close>

definition DEFAULT_CONFIG :: QueueConfig where
  "DEFAULT_CONFIG =
     \<lparr>cfg_max_retries = Number 3, cfg_backoff_base = Number 2,
      cfg_worker_poll_interval = Number 1000, cfg_graceful_shutdown_timeout = Number 30000\<rparr>"

text \<open>
  What \<open>JobExecutor.execute\<close> resolves to for a command that exits with code 1 and
  prints nothing.
\<close>

definition failing_result :: JobResult where
  "failing_result =
     \<lparr>success = False, r_output = Some [], r_error = Some ''Command exited with code 1'',
      exit_code = Some 1\<rparr>"

text \<open>
  A sequence of consecutive runs of one job through \<open>processJob\<close>, each with its clock
  readings and the worker that runs it. The result is the store after the last run, or
  nothing when \<open>processJob\<close> threw in one of them.
\<close>

fun consecutive_runs :: "QueueConfig \<Rightarrow> (string \<Rightarrow> JobResult) \<Rightarrow> (Readings \<times> string) list \<Rightarrow> string \<Rightarrow> store
    \<Rightarrow> store option" where
  "consecutive_runs cfg execute [] jobId jobs = Some jobs"
| "consecutive_runs cfg execute ((ts, workerId) # rs) jobId jobs =
     (case processJob cfg execute ts jobId workerId jobs of
        (Inl e, jobs') \<Rightarrow> None
      | (Inr ok, jobs') \<Rightarrow> consecutive_runs cfg execute rs jobId jobs')"

text \<open>
  The manager of a new process on the same data directory (the constructor of
  \<open>WorkerManager\<close>): no worker, not shutting down; the files are as they were left.
\<close>

definition new_WorkerManager :: "WorkerManager \<Rightarrow> WorkerManager" where
  "new_WorkerManager m = m\<lparr>workers := [], isShuttingDown := False\<rparr>"

text \<open>
  The specification's invariant of a job record: \<open>worker_id\<close> is set exactly in state
  Processing, and \<open>next_retry_at\<close> is set exactly in state Failed.
\<close>

definition record_invariant :: "Job \<Rightarrow> bool" where
  "record_invariant j =
     (((worker_id j \<noteq> None) = (state j = PROCESSING)) \<and>
      ((next_retry_at j \<noteq> None) = (state j = FAILED)))"

text \<open>
  The part of it that the transitions keep: \<open>worker_id\<close> is set exactly in state
  Processing, and \<open>next_retry_at\<close> is set in state Failed (it may stay set in other
  states).
\<close>

definition weak_invariant :: "Job \<Rightarrow> bool" where
  "weak_invariant j =
     (((worker_id j \<noteq> None) = (state j = PROCESSING)) \<and>
      (if state j = FAILED then next_retry_at j \<noteq> None else True))"

section \<open>Lemmas on the storage operations\<close>

lemma findIndex_None_iff: "findIndex P xs = None \<longleftrightarrow> (\<forall>x\<in>set xs. \<not> P x)"
  by (induction xs) auto

lemma findIndex_Some_props:
  "findIndex P xs = Some i \<Longrightarrow> i < length xs \<and> P (xs ! i) \<and> (\<forall>k<i. \<not> P (xs ! k))"
proof (induction xs arbitrary: i)
  case Nil
  then show ?case by simp
next
  case (Cons x xs)
  show ?case
  proof (cases "P x")
    case True
    with Cons.prems show ?thesis by simp
  next
    case False
    with Cons.prems obtain j where j: "findIndex P xs = Some j" "i = Suc j"
      by auto
    from Cons.IH[OF j(1)] have ih: "j < length xs" "P (xs ! j)" "\<forall>k<j. \<not> P (xs ! k)"
      by auto
    have "\<forall>k<Suc j. \<not> P ((x # xs) ! k)"
    proof (intro allI impI)
      fix k assume "k < Suc j"
      then show "\<not> P ((x # xs) ! k)" using False ih(3) by (cases k) auto
    qed
    with ih j(2) show ?thesis by simp
  qed
qed

lemma find_findIndex:
  "find P xs = (case findIndex P xs of None \<Rightarrow> None | Some i \<Rightarrow> Some (xs ! i))"
  by (induction xs) (auto split: option.splits)

lemma getJob_None_iff: "getJob jobId jobs = None \<longleftrightarrow> jobId \<notin> id_job ` set jobs"
  by (auto simp: getJob_def find_None_iff)

lemma getJob_Some_id: "getJob jobId jobs = Some j \<Longrightarrow> id_job j = jobId \<and> j \<in> set jobs"
  by (auto simp: getJob_def find_Some_iff)

lemma find_list_update_hit:
  assumes "findIndex P xs = Some i" "P y"
  shows "find P (xs[i := y]) = Some y"
  using assms
proof (induction xs arbitrary: i)
  case Nil
  then show ?case by simp
next
  case (Cons x xs)
  then show ?case by (cases "P x") auto
qed

lemma find_list_update_other:
  assumes "\<not> Q (xs ! i)" "\<not> Q y" "i < length xs"
  shows "find Q (xs[i := y]) = find Q xs"
  using assms
proof (induction xs arbitrary: i)
  case Nil
  then show ?case by simp
next
  case (Cons x xs)
  then show ?case by (cases i) auto
qed

lemma id_job_spread: "u_id u = None \<Longrightarrow> id_job (spread j u now) = id_job j"
  by (simp add: spread_def spread_key_def)

lemma getJob_updateJob_same:
  assumes "u_id u = None"
  shows "getJob jobId (snd (updateJob now jobId u jobs)) =
         map_option (\<lambda>j. spread j u now) (getJob jobId jobs)"
proof (cases "findIndex (\<lambda>j. id_job j = jobId) jobs")
  case None
  then show ?thesis
    by (simp add: updateJob_def getJob_def find_findIndex)
next
  case (Some i)
  from findIndex_Some_props[OF Some] have "id_job (jobs ! i) = jobId" by simp
  then have "id_job (spread (jobs ! i) u now) = jobId"
    using assms by (simp add: id_job_spread)
  from find_list_update_hit[OF Some, where y = "spread (jobs ! i) u now", OF this]
  show ?thesis using Some
    by (simp add: updateJob_def getJob_def find_findIndex[of _ jobs])
qed

lemma getJob_updateJob_other:
  assumes "u_id u = None" "other \<noteq> jobId"
  shows "getJob other (snd (updateJob now jobId u jobs)) = getJob other jobs"
proof (cases "findIndex (\<lambda>j. id_job j = jobId) jobs")
  case None
  then show ?thesis by (simp add: updateJob_def)
next
  case (Some i)
  from findIndex_Some_props[OF Some] have i: "i < length jobs" "id_job (jobs ! i) = jobId"
    by simp_all
  have "find (\<lambda>j. id_job j = other) (jobs[i := spread (jobs ! i) u now]) =
        find (\<lambda>j. id_job j = other) jobs"
    by (rule find_list_update_other) (use i assms in \<open>simp_all add: id_job_spread\<close>)
  then show ?thesis using Some by (simp add: updateJob_def getJob_def)
qed

lemma available_eligible: "available now j = eligible now j"
  by (auto simp: available_def eligible_def split: option.splits)

lemma sort_key_head_min:
  assumes "sort_key f xs = y # ys"
  shows "y \<in> set xs \<and> (\<forall>x\<in>set xs. f y \<le> f x)"
proof -
  have s: "sorted (map f (y # ys))" using assms sorted_sort_key[of f xs] by simp
  have m: "set (y # ys) = set xs" using assms set_sort[of f xs] by simp
  from m have "y \<in> set xs" by auto
  moreover have "\<forall>x\<in>set xs. f y \<le> f x"
  proof
    fix x assume "x \<in> set xs"
    with m have "x = y \<or> x \<in> set ys" by auto
    with s show "f y \<le> f x" by auto
  qed
  ultimately show ?thesis by simp
qed

lemma find_append:
  "find P (xs @ ys) = (case find P xs of None \<Rightarrow> find P ys | Some x \<Rightarrow> Some x)"
  by (induction xs) auto

lemma updateJob_absent:
  "jobId \<notin> id_job ` set jobs \<Longrightarrow> updateJob now jobId u jobs = (False, jobs)"
proof -
  assume "jobId \<notin> id_job ` set jobs"
  then have "findIndex (\<lambda>j. id_job j = jobId) jobs = None"
    by (auto simp: findIndex_None_iff)
  then show ?thesis by (simp add: updateJob_def)
qed

lemma updateJob_present:
  assumes "jobId \<in> id_job ` set jobs"
  obtains i where "findIndex (\<lambda>j. id_job j = jobId) jobs = Some i" "i < length jobs"
    "id_job (jobs ! i) = jobId" "\<forall>k<i. id_job (jobs ! k) \<noteq> jobId"
    "updateJob now jobId u jobs = (True, jobs[i := spread (jobs ! i) u now])"
proof -
  from assms have "findIndex (\<lambda>j. id_job j = jobId) jobs \<noteq> None"
    by (auto simp: findIndex_None_iff)
  then obtain i where i: "findIndex (\<lambda>j. id_job j = jobId) jobs = Some i" by auto
  from findIndex_Some_props[OF i] i that show ?thesis
    by (simp add: updateJob_def)
qed

lemma merges_given_fields_spread: "merges_given_fields old u now (spread old u now)"
  by (simp add: merges_given_fields_def spread_def spread_key_def)

lemma spread_retry_updates:
  "spread job retry_updates now =
     job\<lparr>state := PENDING, attempts := 0, error_message := None, next_retry_at := None,
       updated_at := now\<rparr>"
  by (simp add: spread_def spread_key_def retry_updates_def no_updates_def)

section \<open>Lemmas on the queue manager\<close>

lemma map_id_updateJob:
  assumes "u_id u = None"
  shows "map id_job (snd (updateJob now jobId u jobs)) = map id_job jobs"
proof (cases "findIndex (\<lambda>j. id_job j = jobId) jobs")
  case None
  then show ?thesis by (simp add: updateJob_def)
next
  case (Some i)
  from findIndex_Some_props[OF Some] have i: "i < length jobs" by simp
  have "map id_job (jobs[i := spread (jobs ! i) u now]) = (map id_job jobs)[i := id_job (jobs ! i)]"
    using assms by (simp add: map_update id_job_spread)
  also have "\<dots> = map id_job jobs"
    using i by (simp add: list_update_same_conv)
  finally show ?thesis using Some by (simp add: updateJob_def)
qed

lemma u_id_updates [simp]:
  "u_id (processing_updates w) = None"
  "u_id (completed_updates out) = None"
  "u_id (dead_updates n msg) = None"
  "u_id (failed_updates n msg t) = None"
  "u_id retry_updates = None"
  "u_id reset_updates = None"
  by (simp_all add: processing_updates_def completed_updates_def dead_updates_def
      failed_updates_def retry_updates_def reset_updates_def no_updates_def)

lemma getJob_unique:
  assumes "distinct (map id_job jobs)" "getJob jobId jobs = Some j" "x \<in> set jobs"
    "id_job x = jobId"
  shows "x = j"
proof -
  from assms(1) have inj: "inj_on id_job (set jobs)" by (simp add: distinct_map)
  from getJob_Some_id[OF assms(2)] have "id_job j = jobId" "j \<in> set jobs" by simp_all
  with inj assms(3,4) show ?thesis by (auto dest: inj_onD)
qed

lemma spread_processing_updates:
  "spread job (processing_updates w) now =
     job\<lparr>state := PROCESSING, worker_id := Some w, updated_at := now\<rparr>"
  by (simp add: spread_def spread_key_def processing_updates_def no_updates_def)

lemma spread_completed_updates:
  "spread job (completed_updates out) now =
     job\<lparr>state := COMPLETED, output_job := out, worker_id := None, updated_at := now\<rparr>"
  by (simp add: spread_def spread_key_def completed_updates_def no_updates_def)

lemma spread_dead_updates:
  "spread job (dead_updates n msg) now =
     job\<lparr>state := DEAD, attempts := n, error_message := Some msg, worker_id := None,
       updated_at := now\<rparr>"
  by (simp add: spread_def spread_key_def dead_updates_def no_updates_def)

lemma spread_failed_updates:
  "spread job (failed_updates n msg t) now =
     job\<lparr>state := FAILED, attempts := n, error_message := Some msg, next_retry_at := Some t,
       worker_id := None, updated_at := now\<rparr>"
  by (simp add: spread_def spread_key_def failed_updates_def no_updates_def)

lemma spread_reset_updates:
  "spread job reset_updates now = job\<lparr>state := PENDING, worker_id := None, updated_at := now\<rparr>"
  by (simp add: spread_def spread_key_def reset_updates_def no_updates_def)

lemma handleJobFailure_dead:
  assumes "getJob jobId jobs = Some job" "ToNumber (max_retries job) \<le> real (attempts job + 1)"
  shows "handleJobFailure cfg now stamp jobId msg jobs =
         (None, snd (updateJob stamp jobId (dead_updates (attempts job + 1) msg) jobs))"
  using assms by (simp add: handleJobFailure_def Let_def)

lemma handleJobFailure_failed:
  assumes "getJob jobId jobs = Some job" "\<not> ToNumber (max_retries job) \<le> real (attempts job + 1)"
    "date_toISOString (real_of_int now + ToNumber (cfg_backoff_base cfg) ^ (attempts job + 1) * 1000)
       = Inr t"
  shows "handleJobFailure cfg now stamp jobId msg jobs =
         (None, snd (updateJob stamp jobId (failed_updates (attempts job + 1) msg t) jobs))"
  using assms by (simp add: handleJobFailure_def Let_def)

lemma handleJobFailure_throws:
  assumes "getJob jobId jobs = Some job" "\<not> ToNumber (max_retries job) \<le> real (attempts job + 1)"
    "date_toISOString (real_of_int now + ToNumber (cfg_backoff_base cfg) ^ (attempts job + 1) * 1000)
       = Inl e"
  shows "handleJobFailure cfg now stamp jobId msg jobs = (Some e, jobs)"
  using assms by (simp add: handleJobFailure_def Let_def)

lemma handleJobFailure_thrown_store:
  "fst (handleJobFailure cfg now stamp jobId msg jobs) = Some e \<Longrightarrow>
   snd (handleJobFailure cfg now stamp jobId msg jobs) = jobs"
  by (auto simp: handleJobFailure_def Let_def split: option.splits if_splits sum.splits)

lemma handleJobFailure_written:
  assumes "getJob jobId jobs = Some job"
    and "fst (handleJobFailure cfg now stamp jobId msg jobs) = None"
  shows "\<exists>j'. getJob jobId (snd (handleJobFailure cfg now stamp jobId msg jobs)) = Some j' \<and>
           attempts j' = attempts job + 1 \<and> max_retries j' = max_retries job \<and>
           command j' = command job \<and>
           state j' = (if ToNumber (max_retries job) \<le> real (attempts j') then DEAD else FAILED)"
proof (cases "ToNumber (max_retries job) \<le> real (attempts job + 1)")
  case True
  show ?thesis
    using assms(1) True
    by (simp add: handleJobFailure_dead[OF assms(1) True] getJob_updateJob_same
        spread_dead_updates)
next
  case False
  show ?thesis
  proof (cases "date_toISOString
      (real_of_int now + ToNumber (cfg_backoff_base cfg) ^ (attempts job + 1) * 1000)")
    case (Inl e)
    from handleJobFailure_throws[OF assms(1) False Inl] assms(2) show ?thesis by simp
  next
    case (Inr t)
    show ?thesis
      using assms(1) False
      by (simp add: handleJobFailure_failed[OF assms(1) False Inr] getJob_updateJob_same
          spread_failed_updates)
  qed
qed

lemma handleJobFailure_other:
  "other \<noteq> jobId \<Longrightarrow>
   getJob other (snd (handleJobFailure cfg now stamp jobId msg jobs)) = getJob other jobs"
  by (simp add: handleJobFailure_def Let_def getJob_updateJob_other
      split: option.splits sum.splits)

lemma map_id_handleJobFailure:
  "map id_job (snd (handleJobFailure cfg now stamp jobId msg jobs)) = map id_job jobs"
  by (simp add: handleJobFailure_def Let_def map_id_updateJob split: option.splits sum.splits)

lemma markProcessing_getJob:
  "getJob jobId (markProcessing now jobId w jobs) =
     map_option (\<lambda>j. j\<lparr>state := PROCESSING, worker_id := Some w, updated_at := now\<rparr>)
       (getJob jobId jobs)"
  by (simp add: markProcessing_def getJob_updateJob_same spread_processing_updates)

lemma map_id_markProcessing:
  "map id_job (markProcessing now jobId w jobs) = map id_job jobs"
  by (simp add: markProcessing_def map_id_updateJob)

lemma reportResult_failure:
  assumes "\<not> success result"
  shows "reportResult cfg ts jobId result jobs =
     (case handleJobFailure cfg (t_now ts) (t_stamp ts) jobId (error_or_unknown (r_error result)) jobs of
        (None, jobs') \<Rightarrow> (Inr False, jobs')
      | (Some e, jobs') \<Rightarrow>
          (case handleJobFailure cfg (t_now_catch ts) (t_stamp_catch ts) jobId
                  (''Unexpected error: '' @ error_toString e) jobs' of
             (None, jobs'') \<Rightarrow> (Inr False, jobs'')
           | (Some e', jobs'') \<Rightarrow> (Inl e', jobs'')))"
  using assms by (simp add: reportResult_def)

lemma map_id_reportResult:
  "map id_job (snd (reportResult cfg ts jobId result jobs)) = map id_job jobs"
proof (cases "success result")
  case True
  then show ?thesis by (simp add: reportResult_def map_id_updateJob)
next
  case False
  obtain r1 s1 where h1: "handleJobFailure cfg (t_now ts) (t_stamp ts) jobId
      (error_or_unknown (r_error result)) jobs = (r1, s1)"
    by (cases "handleJobFailure cfg (t_now ts) (t_stamp ts) jobId
      (error_or_unknown (r_error result)) jobs")
  have m1: "map id_job s1 = map id_job jobs"
    using map_id_handleJobFailure[of cfg "t_now ts" "t_stamp ts" jobId
        "error_or_unknown (r_error result)" jobs] h1 by simp
  show ?thesis
  proof (cases r1)
    case None
    with h1 m1 False show ?thesis by (simp add: reportResult_failure)
  next
    case (Some e)
    obtain r2 s2 where h2: "handleJobFailure cfg (t_now_catch ts) (t_stamp_catch ts) jobId
        (''Unexpected error: '' @ error_toString e) s1 = (r2, s2)"
      by (cases "handleJobFailure cfg (t_now_catch ts) (t_stamp_catch ts) jobId
        (''Unexpected error: '' @ error_toString e) s1")
    have m2: "map id_job s2 = map id_job s1"
      using map_id_handleJobFailure[of cfg "t_now_catch ts" "t_stamp_catch ts" jobId
          "''Unexpected error: '' @ error_toString e" s1] h2 by simp
    from Some h1 h2 m1 m2 False show ?thesis
      by (cases r2) (simp_all add: reportResult_failure)
  qed
qed

lemma map_id_processJob:
  "map id_job (snd (processJob cfg execute ts jobId w jobs)) = map id_job jobs"
  by (simp add: processJob_def map_id_reportResult map_id_markProcessing split: option.splits)

lemma reportResult_failure_written:
  assumes "getJob jobId jobs = Some job" "\<not> success result"
    and "fst (reportResult cfg ts jobId result jobs) = Inr b"
  shows "b = False \<and>
         (\<exists>j'. getJob jobId (snd (reportResult cfg ts jobId result jobs)) = Some j' \<and>
           attempts j' = attempts job + 1 \<and> max_retries j' = max_retries job \<and>
           command j' = command job \<and>
           state j' = (if ToNumber (max_retries job) \<le> real (attempts j') then DEAD else FAILED))"
proof -
  obtain r1 s1 where h1: "handleJobFailure cfg (t_now ts) (t_stamp ts) jobId
      (error_or_unknown (r_error result)) jobs = (r1, s1)"
    by (cases "handleJobFailure cfg (t_now ts) (t_stamp ts) jobId
      (error_or_unknown (r_error result)) jobs")
  show ?thesis
  proof (cases r1)
    case None
    with h1 assms(2) have r: "reportResult cfg ts jobId result jobs = (Inr False, s1)"
      by (simp add: reportResult_failure)
    from handleJobFailure_written[OF assms(1), of cfg "t_now ts" "t_stamp ts"
        "error_or_unknown (r_error result)"] h1 None r assms(3)
    show ?thesis by simp
  next
    case (Some e)
    from handleJobFailure_thrown_store[of cfg "t_now ts" "t_stamp ts" jobId
        "error_or_unknown (r_error result)" jobs e] h1 Some
    have s1: "s1 = jobs" by simp
    obtain r2 s2 where h2: "handleJobFailure cfg (t_now_catch ts) (t_stamp_catch ts) jobId
        (''Unexpected error: '' @ error_toString e) jobs = (r2, s2)"
      by (cases "handleJobFailure cfg (t_now_catch ts) (t_stamp_catch ts) jobId
        (''Unexpected error: '' @ error_toString e) jobs")
    show ?thesis
    proof (cases r2)
      case None
      with h1 h2 Some s1 assms(2) have r: "reportResult cfg ts jobId result jobs = (Inr False, s2)"
        by (simp add: reportResult_failure)
      from handleJobFailure_written[OF assms(1), of cfg "t_now_catch ts" "t_stamp_catch ts"
          "''Unexpected error: '' @ error_toString e"] h2 None r assms(3)
      show ?thesis by simp
    next
      case (Some e')
      with h1 h2 \<open>r1 = Some e\<close> s1 assms(2)
      have "reportResult cfg ts jobId result jobs = (Inl e', s2)"
        by (simp add: reportResult_failure)
      with assms(3) show ?thesis by simp
    qed
  qed
qed

lemma processJob_failure_getJob:
  assumes "getJob jobId jobs = Some job" "\<not> success (execute (command job))"
    and "fst (processJob cfg execute ts jobId w jobs) = Inr b"
  shows "b = False \<and>
         (\<exists>j'. getJob jobId (snd (processJob cfg execute ts jobId w jobs)) = Some j' \<and>
           attempts j' = attempts job + 1 \<and> max_retries j' = max_retries job \<and>
           command j' = command job \<and>
           state j' = (if ToNumber (max_retries job) \<le> real (attempts j') then DEAD else FAILED))"
proof -
  let ?j1 = "job\<lparr>state := PROCESSING, worker_id := Some w, updated_at := t_mark ts\<rparr>"
  let ?s1 = "markProcessing (t_mark ts) jobId w jobs"
  have g1: "getJob jobId ?s1 = Some ?j1"
    using assms(1) by (simp add: markProcessing_getJob)
  have p: "processJob cfg execute ts jobId w jobs =
           reportResult cfg ts jobId (execute (command job)) ?s1"
    using assms(1) by (simp add: processJob_def)
  from reportResult_failure_written[OF g1 assms(2), of cfg ts b] assms(3) p
  show ?thesis by simp
qed

lemma map_id_consecutive_runs:
  "consecutive_runs cfg execute rs jobId jobs = Some st' \<Longrightarrow> map id_job st' = map id_job jobs"
proof (induction rs arbitrary: jobs)
  case Nil
  then show ?case by simp
next
  case (Cons r rs)
  obtain ts w where r: "r = (ts, w)" by (cases r)
  obtain res s1 where p: "processJob cfg execute ts jobId w jobs = (res, s1)"
    by (cases "processJob cfg execute ts jobId w jobs")
  from Cons.prems r p obtain ok where "res = Inr ok"
    and c: "consecutive_runs cfg execute rs jobId s1 = Some st'"
    by (cases res) auto
  have "map id_job s1 = map id_job jobs"
    using map_id_processJob[of cfg execute ts jobId w jobs] p by simp
  with Cons.IH[OF c] show ?case by simp
qed

lemma consecutive_runs_getJob:
  assumes "getJob jobId jobs = Some job" and "\<not> success (execute (command job))"
    and "consecutive_runs cfg execute rs jobId jobs = Some st'"
  shows "\<exists>j'. getJob jobId st' = Some j' \<and>
           attempts j' = attempts job + length rs \<and> max_retries j' = max_retries job \<and>
           command j' = command job \<and>
           (if rs = [] then j' = job
            else state j' = (if ToNumber (max_retries job) \<le> real (attempts j') then DEAD
                             else FAILED))"
  using assms
proof (induction rs arbitrary: jobs job)
  case Nil
  then show ?case by simp
next
  case (Cons r rs)
  obtain ts w where r: "r = (ts, w)" by (cases r)
  obtain res s1 where p: "processJob cfg execute ts jobId w jobs = (res, s1)"
    by (cases "processJob cfg execute ts jobId w jobs")
  from Cons.prems(3) r p obtain ok where res: "res = Inr ok"
    and c: "consecutive_runs cfg execute rs jobId s1 = Some st'"
    by (cases res) auto
  from processJob_failure_getJob[where execute = execute and cfg = cfg and ts = ts and w = w
      and b = ok, OF Cons.prems(1,2)] p res
  obtain j1 where j1: "getJob jobId s1 = Some j1" "attempts j1 = attempts job + 1"
    "max_retries j1 = max_retries job" "command j1 = command job"
    "state j1 = (if ToNumber (max_retries job) \<le> real (attempts j1) then DEAD else FAILED)"
    by auto
  from j1(4) Cons.prems(2) have nf: "\<not> success (execute (command j1))" by simp
  from Cons.IH[where jobs = s1 and job = j1, OF j1(1) nf c]
  obtain j' where j': "getJob jobId st' = Some j'"
    "attempts j' = attempts j1 + length rs" "max_retries j' = max_retries j1"
    "command j' = command j1"
    "if rs = [] then j' = j1
     else state j' = (if ToNumber (max_retries j1) \<le> real (attempts j') then DEAD else FAILED)"
    by blast
  have st: "state j' = (if ToNumber (max_retries job) \<le> real (attempts j') then DEAD else FAILED)"
    using j'(5) j1(3,5) by (cases "rs = []") auto
  show ?case
    using j' j1 st by simp
qed

lemma dead_not_listed:
  assumes "distinct (map id_job st)" "getJob jobId st = Some j" "state j = DEAD"
  shows "jobId \<notin> id_job ` set (getJobsByState PENDING st) \<and>
         jobId \<notin> id_job ` set (getJobsByState FAILED st)"
proof -
  have "\<And>x. x \<in> set st \<Longrightarrow> id_job x = jobId \<Longrightarrow> state x = DEAD"
    using getJob_unique[OF assms(1,2)] assms(3) by blast
  then show ?thesis by (auto simp: getJobsByState_def)
qed

lemma date_toISOString_int:
  assumes "\<bar>x\<bar> \<le> 8640000000000000"
  shows "date_toISOString (real_of_int x) = Inr x"
proof -
  from assms have "real_of_int \<bar>x\<bar> \<le> real_of_int 8640000000000000"
    by (simp only: of_int_le_iff)
  then have r: "\<bar>real_of_int x\<bar> \<le> 8640000000000000" by simp
  have t: "ToIntegerOrInfinity (real_of_int x) = x"
    by (simp add: ToIntegerOrInfinity_def)
  show ?thesis unfolding date_toISOString_def t using r by simp
qed

lemma handleJobFailure_retry_in_range:
  assumes "getJob jobId jobs = Some job"
    and "real (attempts job + 1) < ToNumber (max_retries job)"
    and "cfg_backoff_base cfg = Number (of_int b)"
    and "\<bar>now + b ^ (attempts job + 1) * 1000\<bar> \<le> 8640000000000000"
  shows "fst (handleJobFailure cfg now stamp jobId msg jobs) = None \<and>
         getJob jobId (snd (handleJobFailure cfg now stamp jobId msg jobs)) =
           Some (job\<lparr>state := FAILED, attempts := attempts job + 1, error_message := Some msg,
                  next_retry_at := Some (now + b ^ (attempts job + 1) * 1000),
                  worker_id := None, updated_at := stamp\<rparr>)"
proof -
  have "real_of_int now + ToNumber (cfg_backoff_base cfg) ^ (attempts job + 1) * 1000 =
        real_of_int (now + b ^ (attempts job + 1) * 1000)"
    using assms(3) by simp
  with date_toISOString_int[OF assms(4)]
  have d: "date_toISOString
      (real_of_int now + ToNumber (cfg_backoff_base cfg) ^ (attempts job + 1) * 1000) =
      Inr (now + b ^ (attempts job + 1) * 1000)"
    by simp
  have n: "\<not> ToNumber (max_retries job) \<le> real (attempts job + 1)"
    using assms(2) by simp
  show ?thesis
    using assms(1)
    by (simp add: handleJobFailure_failed[OF assms(1) n d] getJob_updateJob_same
        spread_failed_updates)
qed

lemma fractional_max_retries:
  "consecutive_runs DEFAULT_CONFIG (\<lambda>c. failing_result)
       [(at_once 1100, ''w1''), (at_once 3300, ''w1''), (at_once 7500, ''w1'')] ''a''
       [example_job\<lparr>max_retries := Number (5 / 2)\<rparr>]
     = Some [example_job\<lparr>max_retries := Number (5 / 2), state := DEAD, attempts := 3,
          error_message := Some ''Command exited with code 1'', next_retry_at := Some 7300,
          updated_at := 7500\<rparr>]"
  by (simp add: processJob_def reportResult_def markProcessing_def
      handleJobFailure_def getJob_def updateJob_def getJobsByState_def example_job_def
      DEFAULT_CONFIG_def failing_result_def error_or_unknown_def processing_updates_def
      failed_updates_def dead_updates_def no_updates_def spread_def spread_key_def
      date_toISOString_def ToIntegerOrInfinity_def at_once_def)






lemma validateCommand_no_break_space:
  "validateCommand [CHR 0xA0] = Some ''Command cannot be empty''"
  by (simp add: validateCommand_def trim_def is_space_def)

section \<open>Lemmas on the invariant, on orphan recovery and on the workers\<close>

lemma updateJob_preserves:
  assumes "list_all P jobs"
    and "\<And>j. getJob jobId jobs = Some j \<Longrightarrow> P j \<Longrightarrow> P (spread j u now)"
  shows "list_all P (snd (updateJob now jobId u jobs))"
proof (cases "findIndex (\<lambda>j. id_job j = jobId) jobs")
  case None
  with assms(1) show ?thesis by (simp add: updateJob_def)
next
  case (Some i)
  from findIndex_Some_props[OF Some] have i: "i < length jobs" by simp
  have g: "getJob jobId jobs = Some (jobs ! i)"
    using Some by (simp add: getJob_def find_findIndex)
  from assms(1) i have "P (jobs ! i)" by (simp add: list_all_length)
  with assms(2)[OF g] have new: "P (spread (jobs ! i) u now)" .
  have "set (jobs[i := spread (jobs ! i) u now]) \<subseteq> insert (spread (jobs ! i) u now) (set jobs)"
    by (rule set_update_subset_insert)
  with assms(1) new have "list_all P (jobs[i := spread (jobs ! i) u now])"
    by (auto simp: list_all_iff)
  with Some show ?thesis by (simp add: updateJob_def)
qed

lemma weak_markProcessing:
  "list_all weak_invariant jobs \<Longrightarrow> list_all weak_invariant (markProcessing now jobId w jobs)"
  unfolding markProcessing_def
  by (rule updateJob_preserves) (simp_all add: spread_processing_updates weak_invariant_def)

lemma weak_handleJobFailure:
  assumes "list_all weak_invariant jobs"
  shows "list_all weak_invariant (snd (handleJobFailure cfg now stamp jobId msg jobs))"
proof (cases "getJob jobId jobs")
  case None
  with assms show ?thesis by (simp add: handleJobFailure_def)
next
  case (Some job)
  have d: "list_all weak_invariant (snd (updateJob stamp jobId (dead_updates n msg) jobs))" for n
    by (rule updateJob_preserves[OF assms]) (simp add: spread_dead_updates weak_invariant_def)
  have f: "list_all weak_invariant (snd (updateJob stamp jobId (failed_updates n msg t) jobs))" for n t
    by (rule updateJob_preserves[OF assms]) (simp add: spread_failed_updates weak_invariant_def)
  from Some d f assms show ?thesis
    by (simp add: handleJobFailure_def Let_def split: sum.splits)
qed

lemma weak_reportResult:
  assumes "list_all weak_invariant jobs"
  shows "list_all weak_invariant (snd (reportResult cfg ts jobId result jobs))"
proof (cases "success result")
  case True
  have "list_all weak_invariant
          (snd (updateJob (t_stamp ts) jobId (completed_updates (r_output result)) jobs))"
    by (rule updateJob_preserves[OF assms]) (simp add: spread_completed_updates weak_invariant_def)
  with True show ?thesis by (simp add: reportResult_def)
next
  case False
  obtain r1 s1 where h1: "handleJobFailure cfg (t_now ts) (t_stamp ts) jobId
      (error_or_unknown (r_error result)) jobs = (r1, s1)"
    by (cases "handleJobFailure cfg (t_now ts) (t_stamp ts) jobId
      (error_or_unknown (r_error result)) jobs")
  have w1: "list_all weak_invariant s1"
    using weak_handleJobFailure[OF assms, of cfg "t_now ts" "t_stamp ts" jobId
        "error_or_unknown (r_error result)"] h1 by simp
  show ?thesis
  proof (cases r1)
    case None
    with h1 w1 False show ?thesis by (simp add: reportResult_failure)
  next
    case (Some e)
    obtain r2 s2 where h2: "handleJobFailure cfg (t_now_catch ts) (t_stamp_catch ts) jobId
        (''Unexpected error: '' @ error_toString e) s1 = (r2, s2)"
      by (cases "handleJobFailure cfg (t_now_catch ts) (t_stamp_catch ts) jobId
        (''Unexpected error: '' @ error_toString e) s1")
    have w2: "list_all weak_invariant s2"
      using weak_handleJobFailure[OF w1, of cfg "t_now_catch ts" "t_stamp_catch ts" jobId
          "''Unexpected error: '' @ error_toString e"] h2 by simp
    from Some h1 h2 w2 False show ?thesis
      by (cases r2) (simp_all add: reportResult_failure)
  qed
qed

lemma weak_processJob:
  assumes "list_all weak_invariant jobs"
  shows "list_all weak_invariant (snd (processJob cfg execute ts jobId w jobs))"
  using assms weak_reportResult[OF weak_markProcessing[OF assms]]
  by (simp add: processJob_def split: option.splits)

lemma weak_retryDeadJob:
  assumes "list_all weak_invariant jobs"
  shows "list_all weak_invariant (snd (retryDeadJob now jobId jobs))"
proof (cases "getJob jobId jobs")
  case None
  with assms show ?thesis by (simp add: retryDeadJob_def)
next
  case (Some job)
  show ?thesis
  proof (cases "state job = DEAD")
    case False
    with Some assms show ?thesis by (simp add: retryDeadJob_def)
  next
    case True
    have "list_all weak_invariant (snd (updateJob now jobId retry_updates jobs))"
    proof (rule updateJob_preserves[OF assms])
      fix j assume "getJob jobId jobs = Some j" "weak_invariant j"
      with Some True show "weak_invariant (spread j retry_updates now)"
        by (simp add: spread_retry_updates weak_invariant_def)
    qed
    with Some True show ?thesis by (simp add: retryDeadJob_def)
  qed
qed

lemma weak_resetLoop:
  "list_all weak_invariant st \<Longrightarrow> list_all weak_invariant (snd (resetLoop now snap n st))"
proof (induction snap arbitrary: n st)
  case Nil
  then show ?case by simp
next
  case (Cons job rest)
  have "list_all weak_invariant (snd (updateJob now (id_job job) reset_updates st))"
    by (rule updateJob_preserves[OF Cons.prems]) (simp add: spread_reset_updates weak_invariant_def)
  with Cons show ?case by simp
qed

lemma updateJob_distinct_map:
  assumes "distinct (map id_job st)" "u_id u = None"
  shows "snd (updateJob now jobId u st) =
         map (\<lambda>j. if id_job j = jobId then spread j u now else j) st"
proof (cases "findIndex (\<lambda>j. id_job j = jobId) st")
  case None
  then have "\<forall>j\<in>set st. id_job j \<noteq> jobId" by (simp add: findIndex_None_iff)
  then have "map (\<lambda>j. if id_job j = jobId then spread j u now else j) st = st"
    by (simp add: map_idI)
  with None show ?thesis by (simp add: updateJob_def)
next
  case (Some i)
  from findIndex_Some_props[OF Some] have i: "i < length st" "id_job (st ! i) = jobId"
    by simp_all
  have "st[i := spread (st ! i) u now] =
        map (\<lambda>j. if id_job j = jobId then spread j u now else j) st"
  proof (rule nth_equalityI)
    show "length (st[i := spread (st ! i) u now]) =
          length (map (\<lambda>j. if id_job j = jobId then spread j u now else j) st)"
      by simp
  next
    fix k assume "k < length (st[i := spread (st ! i) u now])"
    then have k: "k < length st" by simp
    show "st[i := spread (st ! i) u now] ! k =
          map (\<lambda>j. if id_job j = jobId then spread j u now else j) st ! k"
    proof (cases "k = i")
      case True
      with i show ?thesis by simp
    next
      case False
      have "(map id_job st ! k = map id_job st ! i) = (k = i)"
        by (rule nth_eq_iff_index_eq[OF assms(1)]) (use k i in simp_all)
      then have "id_job (st ! k) \<noteq> jobId" using False k i by simp
      with False k show ?thesis by simp
    qed
  qed
  with Some show ?thesis by (simp add: updateJob_def)
qed

lemma resetLoop_distinct:
  assumes "distinct (map id_job st)"
  shows "resetLoop now snap n st =
     (n + length (filter (\<lambda>j. state j = PROCESSING) snap),
      map (\<lambda>j. if id_job j \<in> id_job ` {x \<in> set snap. state x = PROCESSING}
                then j\<lparr>state := PENDING, worker_id := None, updated_at := now\<rparr> else j) st)"
  using assms
proof (induction snap arbitrary: n st)
  case Nil
  then show ?case by simp
next
  case (Cons job rest)
  show ?case
  proof (cases "state job = PROCESSING")
    case False
    have "{x \<in> set (job # rest). state x = PROCESSING} = {x \<in> set rest. state x = PROCESSING}"
      using False by auto
    with False Cons.IH[OF Cons.prems] show ?thesis by simp
  next
    case True
    let ?r = "\<lambda>j. j\<lparr>state := PENDING, worker_id := None, updated_at := now\<rparr>"
    let ?st1 = "map (\<lambda>j. if id_job j = id_job job then ?r j else j) st"
    have s1: "snd (updateJob now (id_job job) reset_updates st) = ?st1"
      using updateJob_distinct_map[OF Cons.prems, of reset_updates now "id_job job"]
      by (simp add: spread_reset_updates)
    have m1: "map id_job ?st1 = map id_job st" by (induction st) simp_all
    have d1: "distinct (map id_job ?st1)" unfolding m1 by (rule Cons.prems)
    have S: "{x \<in> set (job # rest). state x = PROCESSING} =
             insert job {x \<in> set rest. state x = PROCESSING}"
      using True by auto
    have comp: "map (\<lambda>j. if id_job j \<in> id_job ` {x \<in> set rest. state x = PROCESSING}
                then ?r j else j) ?st1 =
          map (\<lambda>j. if id_job j \<in> id_job ` {x \<in> set (job # rest). state x = PROCESSING}
                then ?r j else j) st"
      unfolding S by (rule nth_equalityI) auto
    from Cons.IH[OF d1, of "n + 1"] True s1 comp show ?thesis by simp
  qed
qed

lemma resetStuckJobs_distinct:
  assumes "distinct (map id_job jobs)"
  shows "resetStuckJobs now jobs =
     (length (filter (\<lambda>j. state j = PROCESSING) jobs),
      map (\<lambda>j. if state j = PROCESSING
                then j\<lparr>state := PENDING, worker_id := None, updated_at := now\<rparr> else j) jobs)"
proof -
  from assms have inj: "inj_on id_job (set jobs)" by (simp add: distinct_map)
  have "map (\<lambda>j. if id_job j \<in> id_job ` {x \<in> set jobs. state x = PROCESSING}
                then j\<lparr>state := PENDING, worker_id := None, updated_at := now\<rparr> else j) jobs =
        map (\<lambda>j. if state j = PROCESSING
                then j\<lparr>state := PENDING, worker_id := None, updated_at := now\<rparr> else j) jobs"
  proof (rule map_cong[OF refl])
    fix j assume j: "j \<in> set jobs"
    have "id_job j \<in> id_job ` {x \<in> set jobs. state x = PROCESSING} \<longleftrightarrow> state j = PROCESSING"
      using inj j by (auto dest: inj_onD)
    then show "(if id_job j \<in> id_job ` {x \<in> set jobs. state x = PROCESSING}
                then j\<lparr>state := PENDING, worker_id := None, updated_at := now\<rparr> else j) =
               (if state j = PROCESSING
                then j\<lparr>state := PENDING, worker_id := None, updated_at := now\<rparr> else j)"
      by simp
  qed
  with resetLoop_distinct[OF assms, of now jobs 0] show ?thesis
    by (simp add: resetStuckJobs_def)
qed

lemma reportResult_t_mark:
  "reportResult cfg (ts\<lparr>t_mark := x\<rparr>) jobId result jobs = reportResult cfg ts jobId result jobs"
  by (simp add: reportResult_def split: prod.splits option.splits)

text \<open>
  The steps of one worker from the job that \<open>getNextJob\<close> gave it, with no other
  worker in between, are \<open>processJob\<close>.
\<close>

lemma worker_steps_processJob:
  assumes "pc w = Claimed jobId" "getJob jobId jobs = Some job"
  shows "snd (worker_step cfg execute t2
            (fst (worker_step cfg execute t1 (fst (worker_step cfg execute t0 w jobs))
                    (snd (worker_step cfg execute t0 w jobs))))
            (snd (worker_step cfg execute t1 (fst (worker_step cfg execute t0 w jobs))
                    (snd (worker_step cfg execute t0 w jobs)))))
         = snd (processJob cfg execute ((at_once t2)\<lparr>t_mark := t1\<rparr>) jobId (w_id w) jobs)"
  using assms
  by (simp add: worker_step_def processJob_def reportResult_t_mark split: prod.splits)

lemma start_resets_processing:
  assumes "distinct (map id_job (jobsFile m))"
    and "start count uuid now m = Inr (resetCount, m')"
  shows "workers m = [] \<and>
         (resetCount, jobsFile m') = resetStuckJobs now (jobsFile m) \<and>
         resetCount = length (filter (\<lambda>j. state j = PROCESSING) (jobsFile m)) \<and>
         jobsFile m' =
           map (\<lambda>j. if state j = PROCESSING
                     then j\<lparr>state := PENDING, worker_id := None, updated_at := now\<rparr> else j)
             (jobsFile m) \<and>
         getJobsByState PROCESSING (jobsFile m') = [] \<and>
         workers m' = map (\<lambda>i. started_worker (uuid i)) [0..<nat count] \<and>
         list_all (\<lambda>w. pc w = Polling \<and> w_state w = Idle \<and> currentJobId w = None) (workers m')"
proof -
  from assms(2) have c: "\<not> count < 1" "\<not> managerIsRunning m"
    by (auto simp: start_def split: if_splits)
  from c(2) have w0: "workers m = []" by (simp add: managerIsRunning_def)
  obtain n st where r: "resetStuckJobs now (jobsFile m) = (n, st)"
    by (cases "resetStuckJobs now (jobsFile m)")
  from assms(2) c r have res: "resetCount = n"
    "m' = m\<lparr>jobsFile := st, workers := workers m @ map (\<lambda>i. started_worker (uuid i)) [0..<nat count],
            pidFile := True\<rparr>"
    by (simp_all add: start_def)
  from resetStuckJobs_distinct[OF assms(1), of now] r
  have n: "n = length (filter (\<lambda>j. state j = PROCESSING) (jobsFile m))"
    and st: "st = map (\<lambda>j. if state j = PROCESSING
                     then j\<lparr>state := PENDING, worker_id := None, updated_at := now\<rparr> else j)
             (jobsFile m)"
    by simp_all
  have none: "getJobsByState PROCESSING st = []"
    unfolding st getJobsByState_def by (auto simp: filter_empty_conv)
  have ws: "list_all (\<lambda>w. pc w = Polling \<and> w_state w = Idle \<and> currentJobId w = None)
              (map (\<lambda>i. started_worker (uuid i)) [0..<nat count])"
    by (simp add: list_all_iff started_worker_def)
  from w0 r res n st none ws show ?thesis by simp
qed

section \<open>The claims\<close>

subsection \<open>C1: no two workers hold the same job\<close>

text \<open>
  C1 fails on the code. Selecting the job (\<open>getNextJob\<close>) and marking it
  (\<open>updateJob\<close> in \<open>processJob\<close>) are separate storage operations, each taking and
  releasing the lock for itself. Two workers are started on a store with one Pending job
  \<open>a\<close>. Worker \<open>w1\<close> selects \<open>a\<close>; before its \<open>getJob\<close> and \<open>updateJob\<close> are served
  (it waits for the lock, which another process reading the store holds for a moment),
  worker \<open>w2\<close> selects \<open>a\<close> as well, marks it and starts its command; then \<open>w1\<close> marks
  it and starts the command too. Both workers hold job \<open>a\<close> and run its command at the
  same time; the store shows it Processing under the worker that wrote last.
\<close>

theorem claim_race_two_workers:
  "start 2 (\<lambda>i. if i = 0 then ''w1'' else ''w2'') 50
     \<lparr>workers = [], pidFile = False, isShuttingDown = False, jobsFile = [example_job]\<rparr>
   = Inr (0, \<lparr>workers = [started_worker ''w1'', started_worker ''w2''], pidFile = True,
              isShuttingDown = False, jobsFile = [example_job]\<rparr>) \<and>
   run DEFAULT_CONFIG (\<lambda>c. failing_result)
     [(''w1'', 100), (''w2'', 101), (''w2'', 102), (''w2'', 103), (''w1'', 104), (''w1'', 105)]
     \<lparr>workers = [started_worker ''w1'', started_worker ''w2''], pidFile = True,
      isShuttingDown = False, jobsFile = [example_job]\<rparr>
   = \<lparr>workers =
        [\<lparr>w_id = ''w1'', w_state = Busy, currentJobId = Some ''a'', jobsCompleted = 0,
          jobsFailed = 0, isRunning = True, pc = Executing ''a'' ''echo ok''\<rparr>,
         \<lparr>w_id = ''w2'', w_state = Busy, currentJobId = Some ''a'', jobsCompleted = 0,
          jobsFailed = 0, isRunning = True, pc = Executing ''a'' ''echo ok''\<rparr>],
      pidFile = True, isShuttingDown = False,
      jobsFile = [example_job\<lparr>state := PROCESSING, worker_id := Some ''w1'', updated_at := 105\<rparr>]\<rparr>"
  by (simp add: start_def managerIsRunning_def resetStuckJobs_def run_def step_def
      worker_step_def started_worker_def getNextJob_def getNextPendingJob_def available_def
      getJob_def markProcessing_def updateJob_def processing_updates_def example_job_def
      no_updates_def spread_def spread_key_def upt_rec [of 0] upt_rec [of 1] upt_rec [of 2]
      numeral_2_eq_2)

subsection \<open>C2: Dead when the retries are used up\<close>

text \<open>
  C2 as stated, refuted at \<open>max_retries = 0\<close>: the first failure report moves the job to
  Dead with \<open>attempts = 1\<close>, which is not \<open>max_retries\<close>.
\<close>

theorem dead_attempts_counterexample:
  "max_retries (example_job\<lparr>max_retries := Number 0, state := PROCESSING, worker_id := Some ''w1''\<rparr>)
     = Number 0 \<and>
   handleJobFailure DEFAULT_CONFIG 1000 1001 ''a'' ''boom''
       [example_job\<lparr>max_retries := Number 0, state := PROCESSING, worker_id := Some ''w1''\<rparr>]
     = (None, [example_job\<lparr>max_retries := Number 0, state := DEAD, attempts := 1,
          error_message := Some ''boom'', updated_at := 1001\<rparr>]) \<and>
   real (attempts (example_job\<lparr>max_retries := Number 0, state := DEAD, attempts := 1,
          error_message := Some ''boom'', updated_at := 1001\<rparr>))
     \<noteq> ToNumber (max_retries (example_job\<lparr>max_retries := Number 0, state := DEAD, attempts := 1,
          error_message := Some ''boom'', updated_at := 1001\<rparr>))"
  by (simp add: handleJobFailure_def getJob_def updateJob_def example_job_def DEFAULT_CONFIG_def
      failed_updates_def dead_updates_def no_updates_def spread_def spread_key_def)

text \<open>
  C2, amended. For every job with unique id that is not Dead and whose \<open>attempts\<close> is
  below its \<open>max_retries\<close> (a job as \<open>enqueue\<close> or a DLQ retry leaves it, with
  \<open>max_retries > 0\<close>), and every sequence of consecutive failing runs of which each is
  recorded by the failure handler: the job is Dead afterwards exactly when the attempt
  count has reached \<open>max_retries\<close>; the run that takes it from a state other than Dead
  into Dead leaves \<open>attempts\<close> at the least integer that is not below \<open>max_retries\<close>,
  which is \<open>max_retries\<close> itself when that is an integer; and a Dead job's id is in
  neither the Pending nor the Failed listing.
\<close>

theorem consecutive_runs_dead:
  assumes "getJob jobId jobs = Some job" and "distinct (map id_job jobs)"
    and "\<not> success (execute (command job))"
    and "state job \<noteq> DEAD" and "real (attempts job) < ToNumber (max_retries job)"
    and "consecutive_runs cfg execute rs jobId jobs = Some st'"
  shows "\<exists>j'. getJob jobId st' = Some j' \<and>
           attempts j' = attempts job + length rs \<and> max_retries j' = max_retries job \<and>
           (state j' = DEAD \<longleftrightarrow> ToNumber (max_retries job) \<le> real (attempts job + length rs)) \<and>
           (state j' = DEAD \<longrightarrow>
              jobId \<notin> id_job ` set (getJobsByState PENDING st') \<and>
              jobId \<notin> id_job ` set (getJobsByState FAILED st')) \<and>
           (\<forall>r st'' j''. state j' \<noteq> DEAD \<longrightarrow>
              consecutive_runs cfg execute (rs @ [r]) jobId jobs = Some st'' \<longrightarrow>
              getJob jobId st'' = Some j'' \<longrightarrow> state j'' = DEAD \<longrightarrow>
              int (attempts j'') = \<lceil>ToNumber (max_retries j'')\<rceil> \<and>
              (ToNumber (max_retries j'') \<in> \<int> \<longrightarrow>
                 real (attempts j'') = ToNumber (max_retries j'')))"
proof -
  let ?m = "ToNumber (max_retries job)"
  from consecutive_runs_getJob[where execute = execute and cfg = cfg and rs = rs,
      OF assms(1,3,6)]
  obtain j' where j': "getJob jobId st' = Some j'" "attempts j' = attempts job + length rs"
    "max_retries j' = max_retries job"
    "if rs = [] then j' = job
     else state j' = (if ?m \<le> real (attempts j') then DEAD else FAILED)"
    by blast
  have iff: "state j' = DEAD \<longleftrightarrow> ?m \<le> real (attempts job + length rs)"
    using j'(2,4) assms(4,5) by (cases "rs = []") auto
  have dist: "distinct (map id_job st')"
    using assms(2) map_id_consecutive_runs[OF assms(6)] by simp
  have listed: "state j' = DEAD \<longrightarrow>
      jobId \<notin> id_job ` set (getJobsByState PENDING st') \<and>
      jobId \<notin> id_job ` set (getJobsByState FAILED st')"
    using dead_not_listed[OF dist j'(1)] by blast
  have enter: "\<forall>r st'' j''. state j' \<noteq> DEAD \<longrightarrow>
      consecutive_runs cfg execute (rs @ [r]) jobId jobs = Some st'' \<longrightarrow>
      getJob jobId st'' = Some j'' \<longrightarrow> state j'' = DEAD \<longrightarrow>
      int (attempts j'') = \<lceil>ToNumber (max_retries j'')\<rceil> \<and>
      (ToNumber (max_retries j'') \<in> \<int> \<longrightarrow> real (attempts j'') = ToNumber (max_retries j''))"
  proof (intro allI impI)
    fix r st'' j''
    assume nd: "state j' \<noteq> DEAD"
      and c: "consecutive_runs cfg execute (rs @ [r]) jobId jobs = Some st''"
      and g: "getJob jobId st'' = Some j''"
      and d: "state j'' = DEAD"
    from consecutive_runs_getJob[where execute = execute and cfg = cfg and rs = "rs @ [r]",
        OF assms(1,3) c] g
    have a: "attempts j'' = attempts job + length rs + 1" "max_retries j'' = max_retries job"
      "state j'' = (if ?m \<le> real (attempts j'') then DEAD else FAILED)"
      by auto
    from nd iff have lo: "real (attempts job + length rs) < ?m" by simp
    from d a(3) have hi: "?m \<le> real (attempts j'')"
      by (auto split: if_splits)
    have lo': "real_of_int (int (attempts j'')) - 1 < ?m" using lo a(1) by simp
    have hi': "?m \<le> real_of_int (int (attempts j''))" using hi by simp
    have ce: "\<lceil>?m\<rceil> = int (attempts j'')"
      by (rule ceiling_unique) (use lo' hi' in simp_all)
    have "real (attempts j'') = ?m" if "?m \<in> \<int>"
    proof -
      from that obtain z where z: "?m = of_int z" by (auto elim: Ints_cases)
      with ce have "z = int (attempts j'')" by simp
      with z show ?thesis by simp
    qed
    with ce a(2) show "int (attempts j'') = \<lceil>ToNumber (max_retries j'')\<rceil> \<and>
      (ToNumber (max_retries j'') \<in> \<int> \<longrightarrow> real (attempts j'') = ToNumber (max_retries j''))"
      by simp
  qed
  from j'(1,2,3) iff listed enter show ?thesis by blast
qed

theorem consecutive_runs_dead_witness:
  "getJob ''a'' [example_job\<lparr>max_retries := Number 2\<rparr>] = Some (example_job\<lparr>max_retries := Number 2\<rparr>) \<and>
   distinct (map id_job [example_job\<lparr>max_retries := Number 2\<rparr>]) \<and>
   \<not> success ((\<lambda>c. failing_result) (command (example_job\<lparr>max_retries := Number 2\<rparr>))) \<and>
   state (example_job\<lparr>max_retries := Number 2\<rparr>) \<noteq> DEAD \<and>
   real (attempts (example_job\<lparr>max_retries := Number 2\<rparr>))
     < ToNumber (max_retries (example_job\<lparr>max_retries := Number 2\<rparr>)) \<and>
   consecutive_runs DEFAULT_CONFIG (\<lambda>c. failing_result) [(at_once 1100, ''w1'')] ''a''
       [example_job\<lparr>max_retries := Number 2\<rparr>]
     = Some [example_job\<lparr>max_retries := Number 2, state := FAILED, attempts := 1,
          error_message := Some ''Command exited with code 1'', next_retry_at := Some 3100,
          updated_at := 1100\<rparr>] \<and>
   consecutive_runs DEFAULT_CONFIG (\<lambda>c. failing_result)
       ([(at_once 1100, ''w1'')] @ [(at_once 3300, ''w2'')]) ''a''
       [example_job\<lparr>max_retries := Number 2\<rparr>]
     = Some [example_job\<lparr>max_retries := Number 2, state := DEAD, attempts := 2,
          error_message := Some ''Command exited with code 1'', next_retry_at := Some 3100,
          updated_at := 3300\<rparr>] \<and>
   getJobsByState PENDING [example_job\<lparr>max_retries := Number 2, state := DEAD, attempts := 2,
          error_message := Some ''Command exited with code 1'', next_retry_at := Some 3100,
          updated_at := 3300\<rparr>] = [] \<and>
   getJobsByState FAILED [example_job\<lparr>max_retries := Number 2, state := DEAD, attempts := 2,
          error_message := Some ''Command exited with code 1'', next_retry_at := Some 3100,
          updated_at := 3300\<rparr>] = []"
  using consecutive_runs_dead [where jobId = "''a''" and jobs = "[example_job\<lparr>max_retries := Number 2\<rparr>]"
      and job = "example_job\<lparr>max_retries := Number 2\<rparr>" and execute = "\<lambda>c. failing_result"
      and cfg = DEFAULT_CONFIG and rs = "[(at_once 1100, ''w1'')]"
      and st' = "[example_job\<lparr>max_retries := Number 2, state := FAILED, attempts := 1,
          error_message := Some ''Command exited with code 1'', next_retry_at := Some 3100,
          updated_at := 1100\<rparr>]"]
  by (simp add: processJob_def reportResult_def markProcessing_def
      handleJobFailure_def getJob_def updateJob_def getJobsByState_def example_job_def
      DEFAULT_CONFIG_def failing_result_def error_or_unknown_def processing_updates_def
      failed_updates_def dead_updates_def no_updates_def spread_def spread_key_def
      date_toISOString_def ToIntegerOrInfinity_def at_once_def)

subsection \<open>C3: the retry time of a Failed job\<close>

text \<open>
  C3 fails on the code where the retry time is beyond the range of \<open>Date\<close>. With
  \<open>backoff_base = 10000000000000\<close> in the configuration, the failure of a job with
  \<open>attempts = 0\<close> and \<open>max_retries = 3\<close> is reported while the incremented count is
  below \<open>max_retries\<close>; \<open>toISOString\<close> throws in \<open>handleJobFailure\<close>, nothing is
  written, the \<open>catch\<close> branch of \<open>processJob\<close> fails the same way, and the job stays
  Processing with its \<open>worker_id\<close>, never eligible again. (Within the range,
  \<open>handleJobFailure_retry_in_range\<close> above gives what the claim says.)
\<close>

theorem handleJobFailure_RangeError:
  "getJob ''a'' [example_job\<lparr>state := PROCESSING, worker_id := Some ''w1''\<rparr>]
     = Some (example_job\<lparr>state := PROCESSING, worker_id := Some ''w1''\<rparr>) \<and>
   real (attempts (example_job\<lparr>state := PROCESSING, worker_id := Some ''w1''\<rparr>) + 1)
     < ToNumber (max_retries (example_job\<lparr>state := PROCESSING, worker_id := Some ''w1''\<rparr>)) \<and>
   handleJobFailure (DEFAULT_CONFIG\<lparr>cfg_backoff_base := Number 10000000000000\<rparr>)
       1700000000000 1700000000001 ''a'' ''boom''
       [example_job\<lparr>state := PROCESSING, worker_id := Some ''w1''\<rparr>]
     = (Some (RangeError ''Invalid time value''),
        [example_job\<lparr>state := PROCESSING, worker_id := Some ''w1''\<rparr>]) \<and>
   processJob (DEFAULT_CONFIG\<lparr>cfg_backoff_base := Number 10000000000000\<rparr>) (\<lambda>c. failing_result)
       (at_once 1700000000000) ''a'' ''w1'' [example_job]
     = (Inl (RangeError ''Invalid time value''),
        [example_job\<lparr>state := PROCESSING, worker_id := Some ''w1'', updated_at := 1700000000000\<rparr>]) \<and>
   getNextJob 1800000000000
       [example_job\<lparr>state := PROCESSING, worker_id := Some ''w1'', updated_at := 1700000000000\<rparr>]
     = None"
  by (simp add: processJob_def reportResult_def markProcessing_def handleJobFailure_def
      getJob_def updateJob_def getNextJob_def getNextPendingJob_def available_def
      example_job_def DEFAULT_CONFIG_def failing_result_def error_or_unknown_def
      processing_updates_def failed_updates_def dead_updates_def no_updates_def spread_def
      spread_key_def date_toISOString_def ToIntegerOrInfinity_def at_once_def)

subsection \<open>C4: the invariant of a job record\<close>

text \<open>
  C4 as stated, refuted: marking a Failed job as Processing keeps its \<open>next_retry_at\<close>,
  and so does the move of that job to Dead; the records satisfy the invariant before and
  not after.
\<close>

theorem next_retry_at_retained_counterexample:
  "record_invariant (example_job\<lparr>state := FAILED, attempts := 1, next_retry_at := Some 3000\<rparr>) \<and>
   getNextJob 5000 [example_job\<lparr>state := FAILED, attempts := 1, next_retry_at := Some 3000\<rparr>]
     = Some (example_job\<lparr>state := FAILED, attempts := 1, next_retry_at := Some 3000\<rparr>) \<and>
   markProcessing 5000 ''a'' ''w1''
       [example_job\<lparr>state := FAILED, attempts := 1, next_retry_at := Some 3000\<rparr>]
     = [example_job\<lparr>state := PROCESSING, attempts := 1, next_retry_at := Some 3000,
          worker_id := Some ''w1'', updated_at := 5000\<rparr>] \<and>
   \<not> record_invariant (example_job\<lparr>state := PROCESSING, attempts := 1, next_retry_at := Some 3000,
          worker_id := Some ''w1'', updated_at := 5000\<rparr>) \<and>
   handleJobFailure DEFAULT_CONFIG 6000 6001 ''a'' ''boom''
       [example_job\<lparr>state := PROCESSING, attempts := 2, next_retry_at := Some 3000,
          worker_id := Some ''w1'', updated_at := 5000\<rparr>]
     = (None, [example_job\<lparr>state := DEAD, attempts := 3, next_retry_at := Some 3000,
          error_message := Some ''boom'', updated_at := 6001\<rparr>]) \<and>
   \<not> record_invariant (example_job\<lparr>state := DEAD, attempts := 3, next_retry_at := Some 3000,
          error_message := Some ''boom'', updated_at := 6001\<rparr>)"
  by (simp add: record_invariant_def getNextJob_def getNextPendingJob_def available_def
      markProcessing_def handleJobFailure_def getJob_def updateJob_def example_job_def
      DEFAULT_CONFIG_def processing_updates_def failed_updates_def dead_updates_def
      no_updates_def spread_def spread_key_def)

text \<open>
  C4, amended. Every transition of the queue manager (marking as Processing,
  completing, failing, a whole \<open>processJob\<close>, the DLQ retry, the orphan recovery) keeps,
  for every job of the store: \<open>worker_id\<close> is set if and only if the state is
  Processing, and \<open>next_retry_at\<close> is set if the state is Failed.
\<close>

theorem transitions_preserve_weak_invariant:
  assumes "list_all weak_invariant jobs"
  shows "list_all weak_invariant (markProcessing now jobId w jobs) \<and>
         list_all weak_invariant (snd (reportResult cfg ts jobId result jobs)) \<and>
         list_all weak_invariant (snd (handleJobFailure cfg now stamp jobId msg jobs)) \<and>
         list_all weak_invariant (snd (processJob cfg execute ts jobId w jobs)) \<and>
         list_all weak_invariant (snd (retryDeadJob now jobId jobs)) \<and>
         list_all weak_invariant (snd (resetStuckJobs now jobs))"
  using weak_markProcessing[OF assms] weak_reportResult[OF assms] weak_handleJobFailure[OF assms]
    weak_processJob[OF assms] weak_retryDeadJob[OF assms] weak_resetLoop[OF assms]
  by (simp add: resetStuckJobs_def)

theorem transitions_preserve_weak_invariant_witness:
  "list_all weak_invariant [example_job\<lparr>state := FAILED, attempts := 1, next_retry_at := Some 3000\<rparr>] \<and>
   list_all weak_invariant (markProcessing 5000 ''a'' ''w1''
     [example_job\<lparr>state := FAILED, attempts := 1, next_retry_at := Some 3000\<rparr>]) \<and>
   list_all weak_invariant (snd (reportResult DEFAULT_CONFIG (at_once 6000) ''a'' failing_result
     [example_job\<lparr>state := FAILED, attempts := 1, next_retry_at := Some 3000\<rparr>])) \<and>
   list_all weak_invariant (snd (handleJobFailure DEFAULT_CONFIG 5000 5001 ''a'' ''boom''
     [example_job\<lparr>state := FAILED, attempts := 1, next_retry_at := Some 3000\<rparr>])) \<and>
   list_all weak_invariant (snd (processJob DEFAULT_CONFIG (\<lambda>c. failing_result) (at_once 6000) ''a'' ''w1''
     [example_job\<lparr>state := FAILED, attempts := 1, next_retry_at := Some 3000\<rparr>])) \<and>
   list_all weak_invariant (snd (retryDeadJob 5000 ''a''
     [example_job\<lparr>state := FAILED, attempts := 1, next_retry_at := Some 3000\<rparr>])) \<and>
   list_all weak_invariant (snd (resetStuckJobs 5000
     [example_job\<lparr>state := FAILED, attempts := 1, next_retry_at := Some 3000\<rparr>]))"
  using transitions_preserve_weak_invariant [where now = 5000 and stamp = 5001 and jobId = "''a''"
      and w = "''w1''" and cfg = DEFAULT_CONFIG and result = failing_result and msg = "''boom''"
      and execute = "\<lambda>c. failing_result" and ts = "at_once 6000"
      and jobs = "[example_job\<lparr>state := FAILED, attempts := 1, next_retry_at := Some 3000\<rparr>]"]
  by (simp add: weak_invariant_def example_job_def)

subsection \<open>C5: the next eligible job\<close>

text \<open>
  C5. For every job collection and every current time, \<open>getNextPendingJob\<close> returns a
  job of the collection that is eligible (Pending or Failed, with \<open>next_retry_at\<close> unset
  or not after now) and whose \<open>created_at\<close> is earliest among all eligible jobs of the
  collection; it returns nothing exactly when no job of the collection is eligible.
\<close>

theorem getNextPendingJob_fifo:
  "(case getNextPendingJob now jobs of
      None \<Rightarrow> \<forall>k\<in>set jobs. \<not> eligible now k
    | Some j \<Rightarrow> j \<in> set jobs \<and> eligible now j \<and>
        (\<forall>k\<in>set jobs. eligible now k \<longrightarrow> created_at j \<le> created_at k))"
proof (cases "sort_key created_at (filter (available now) jobs)")
  case Nil
  then have "filter (available now) jobs = []"
    using length_sort[of created_at "filter (available now) jobs"] by simp
  then have "\<forall>k\<in>set jobs. \<not> available now k"
    by (simp add: filter_empty_conv)
  with Nil show ?thesis
    by (simp add: getNextPendingJob_def available_eligible)
next
  case (Cons j js)
  from sort_key_head_min[OF Cons]
  have "j \<in> set jobs" "available now j"
    "\<forall>k\<in>set jobs. available now k \<longrightarrow> created_at j \<le> created_at k"
    by auto
  with Cons show ?thesis
    by (simp add: getNextPendingJob_def available_eligible)
qed

theorem getNextPendingJob_fifo_witness:
  "getNextPendingJob 100
     [example_job\<lparr>state := PROCESSING, created_at := 1\<rparr>,
      example_job\<lparr>id_job := ''b'', state := FAILED, next_retry_at := Some 50, created_at := 5\<rparr>,
      example_job\<lparr>id_job := ''c'', created_at := 3\<rparr>,
      example_job\<lparr>id_job := ''d'', state := FAILED, next_retry_at := Some 101, created_at := 2\<rparr>]
   = Some (example_job\<lparr>id_job := ''c'', created_at := 3\<rparr>) \<and>
   eligible 100 (example_job\<lparr>id_job := ''b'', state := FAILED, next_retry_at := Some 50, created_at := 5\<rparr>) \<and>
   created_at (example_job\<lparr>id_job := ''c'', created_at := 3\<rparr>)
     \<le> created_at (example_job\<lparr>id_job := ''b'', state := FAILED, next_retry_at := Some 50, created_at := 5\<rparr>) \<and>
   getNextPendingJob 0 [example_job\<lparr>state := DEAD\<rparr>] = None \<and>
   \<not> eligible 0 (example_job\<lparr>state := DEAD\<rparr>)"
  using getNextPendingJob_fifo [where now = 100 and jobs =
     "[example_job\<lparr>state := PROCESSING, created_at := 1\<rparr>,
      example_job\<lparr>id_job := ''b'', state := FAILED, next_retry_at := Some 50, created_at := 5\<rparr>,
      example_job\<lparr>id_job := ''c'', created_at := 3\<rparr>,
      example_job\<lparr>id_job := ''d'', state := FAILED, next_retry_at := Some 101, created_at := 2\<rparr>]"]
    getNextPendingJob_fifo [where now = 0 and jobs = "[example_job\<lparr>state := DEAD\<rparr>]"]
  by (simp add: getNextPendingJob_def available_def eligible_def example_job_def)

subsection \<open>C6: retry from the dead letter queue\<close>

text \<open>
  C6. For every job id: when the stored job exists and is Dead, \<open>retryDeadJob\<close> returns
  true, and that job has \<open>attempts\<close> 0, no \<open>error_message\<close>, no \<open>next_retry_at\<close> and
  state Pending (and a fresh \<open>updated_at\<close>), nothing else in the store being changed;
  when the id is absent or the job is not Dead, it returns false and the store is
  unchanged.
\<close>

theorem retryDeadJob_spec:
  "(case getJob jobId jobs of
      None \<Rightarrow> retryDeadJob now jobId jobs = (False, jobs)
    | Some job \<Rightarrow>
        if state job = DEAD
        then fst (retryDeadJob now jobId jobs) = True \<and>
             getJob jobId (snd (retryDeadJob now jobId jobs)) =
               Some (job\<lparr>state := PENDING, attempts := 0, error_message := None,
                      next_retry_at := None, updated_at := now\<rparr>) \<and>
             (\<exists>i<length jobs. jobs ! i = job \<and>
                snd (retryDeadJob now jobId jobs) =
                  jobs[i := job\<lparr>state := PENDING, attempts := 0, error_message := None,
                           next_retry_at := None, updated_at := now\<rparr>])
        else retryDeadJob now jobId jobs = (False, jobs))"
proof (cases "getJob jobId jobs")
  case None
  then show ?thesis by (simp add: retryDeadJob_def)
next
  case (Some job)
  show ?thesis
  proof (cases "state job = DEAD")
    case False
    with Some show ?thesis by (simp add: retryDeadJob_def)
  next
    case True
    have u: "u_id retry_updates = None"
      by (simp add: retry_updates_def no_updates_def)
    from Some obtain i where i: "findIndex (\<lambda>j. id_job j = jobId) jobs = Some i"
      and ji: "jobs ! i = job"
      by (auto simp: getJob_def find_findIndex split: option.splits)
    from findIndex_Some_props[OF i] have len: "i < length jobs" by simp
    have r: "retryDeadJob now jobId jobs = (True, jobs[i := spread job retry_updates now])"
      using Some True i ji by (simp add: retryDeadJob_def updateJob_def)
    have g: "getJob jobId (snd (retryDeadJob now jobId jobs)) = Some (spread job retry_updates now)"
      using getJob_updateJob_same[OF u, of jobId now jobs] Some True
      by (simp add: retryDeadJob_def)
    show ?thesis
      using Some True r g len ji by (auto simp: spread_retry_updates)
  qed
qed

theorem retryDeadJob_spec_witness:
  "getJob ''a'' [example_job\<lparr>state := DEAD, attempts := 3, error_message := Some ''boom'',
       next_retry_at := Some 7\<rparr>] =
     Some (example_job\<lparr>state := DEAD, attempts := 3, error_message := Some ''boom'',
       next_retry_at := Some 7\<rparr>) \<and>
   retryDeadJob 50 ''a'' [example_job\<lparr>state := DEAD, attempts := 3, error_message := Some ''boom'',
       next_retry_at := Some 7\<rparr>] = (True, [example_job\<lparr>updated_at := 50\<rparr>]) \<and>
   getJob ''a'' [example_job\<lparr>state := FAILED\<rparr>] = Some (example_job\<lparr>state := FAILED\<rparr>) \<and>
   retryDeadJob 50 ''a'' [example_job\<lparr>state := FAILED\<rparr>] = (False, [example_job\<lparr>state := FAILED\<rparr>]) \<and>
   getJob ''b'' [example_job\<lparr>state := DEAD\<rparr>] = None \<and>
   retryDeadJob 50 ''b'' [example_job\<lparr>state := DEAD\<rparr>] = (False, [example_job\<lparr>state := DEAD\<rparr>])"
  using retryDeadJob_spec [where jobId = "''a''" and now = 50 and jobs =
      "[example_job\<lparr>state := DEAD, attempts := 3, error_message := Some ''boom'',
          next_retry_at := Some 7\<rparr>]"]
    retryDeadJob_spec [where jobId = "''a''" and now = 50 and jobs = "[example_job\<lparr>state := FAILED\<rparr>]"]
    retryDeadJob_spec [where jobId = "''b''" and now = 50 and jobs = "[example_job\<lparr>state := DEAD\<rparr>]"]
  by (simp add: retryDeadJob_def getJob_def updateJob_def example_job_def retry_updates_def
      no_updates_def spread_def spread_key_def)

subsection \<open>C7: orphan recovery at the start of the pool\<close>

text \<open>
  C7 fails on the code for the restart after a crash. A pool is started and its worker
  marks job \<open>a\<close> Processing; the process dies, which leaves \<open>workers.pid\<close> and the job as
  they are. The \<open>start\<close> of the next process throws on \<open>isRunning()\<close> before it reaches
  \<open>resetStuckJobs\<close>: the job stays Processing, where \<open>resetStuckJobs\<close> would have made
  it Pending. (A \<open>start\<close> that is not refused does reset every Processing job before it
  makes a worker: \<open>start_resets_processing\<close> above.)
\<close>

theorem start_refused_after_crash:
  "start 1 (\<lambda>i. ''w1'') 50
     \<lparr>workers = [], pidFile = False, isShuttingDown = False, jobsFile = [example_job]\<rparr>
   = Inr (0, \<lparr>workers = [started_worker ''w1''], pidFile = True, isShuttingDown = False,
              jobsFile = [example_job]\<rparr>) \<and>
   run DEFAULT_CONFIG (\<lambda>c. failing_result) [(''w1'', 100), (''w1'', 101), (''w1'', 102)]
     \<lparr>workers = [started_worker ''w1''], pidFile = True, isShuttingDown = False,
      jobsFile = [example_job]\<rparr>
   = \<lparr>workers =
        [\<lparr>w_id = ''w1'', w_state = Busy, currentJobId = Some ''a'', jobsCompleted = 0,
          jobsFailed = 0, isRunning = True, pc = Executing ''a'' ''echo ok''\<rparr>],
      pidFile = True, isShuttingDown = False,
      jobsFile = [example_job\<lparr>state := PROCESSING, worker_id := Some ''w1'', updated_at := 102\<rparr>]\<rparr> \<and>
   new_WorkerManager
     \<lparr>workers =
        [\<lparr>w_id = ''w1'', w_state = Busy, currentJobId = Some ''a'', jobsCompleted = 0,
          jobsFailed = 0, isRunning = True, pc = Executing ''a'' ''echo ok''\<rparr>],
      pidFile = True, isShuttingDown = False,
      jobsFile = [example_job\<lparr>state := PROCESSING, worker_id := Some ''w1'', updated_at := 102\<rparr>]\<rparr>
   = \<lparr>workers = [], pidFile = True, isShuttingDown = False,
      jobsFile = [example_job\<lparr>state := PROCESSING, worker_id := Some ''w1'', updated_at := 102\<rparr>]\<rparr> \<and>
   start 1 (\<lambda>i. ''w2'') 900
     \<lparr>workers = [], pidFile = True, isShuttingDown = False,
      jobsFile = [example_job\<lparr>state := PROCESSING, worker_id := Some ''w1'', updated_at := 102\<rparr>]\<rparr>
   = Inl (Error ''Workers are already running. Stop them first.'') \<and>
   getJobsByState PROCESSING
     [example_job\<lparr>state := PROCESSING, worker_id := Some ''w1'', updated_at := 102\<rparr>]
   = [example_job\<lparr>state := PROCESSING, worker_id := Some ''w1'', updated_at := 102\<rparr>] \<and>
   resetStuckJobs 900
     [example_job\<lparr>state := PROCESSING, worker_id := Some ''w1'', updated_at := 102\<rparr>]
   = (1, [example_job\<lparr>updated_at := 900\<rparr>])"
  by (simp add: start_def managerIsRunning_def new_WorkerManager_def resetStuckJobs_def run_def
      step_def worker_step_def started_worker_def getNextJob_def getNextPendingJob_def
      available_def getJob_def markProcessing_def updateJob_def getJobsByState_def
      processing_updates_def reset_updates_def example_job_def no_updates_def spread_def
      spread_key_def upt_rec [of 0] upt_rec [of 1])

subsection \<open>C8: appending a job\<close>

text \<open>
  C8 as stated, refuted: \<open>addJob\<close> has no check of the id. Appending a record whose
  id is already present succeeds and changes the collection, which then holds the id
  twice.
\<close>

theorem addJob_duplicate_counterexample:
  "id_job example_job \<in> id_job ` set [example_job] \<and>
   addJob example_job [example_job] = [example_job, example_job] \<and>
   addJob example_job [example_job] \<noteq> [example_job]"
  by (simp add: addJob_def)

text \<open>
  C8, amended. \<open>addJob\<close> never fails: for every collection and every record, whether
  or not its id is present, the collection afterwards is the old one followed by the
  record. A later \<open>getJob\<close> of that id returns the record when the id was not present
  before, and still returns the older record when it was.
\<close>

theorem addJob_appends:
  "length (addJob job jobs) = Suc (length jobs) \<and>
   take (length jobs) (addJob job jobs) = jobs \<and>
   addJob job jobs ! length jobs = job \<and>
   getJob (id_job job) (addJob job jobs) =
     (case getJob (id_job job) jobs of None \<Rightarrow> Some job | Some old \<Rightarrow> Some old)"
  by (simp add: addJob_def getJob_def find_append split: option.splits)

subsection \<open>C9: updating a job\<close>

text \<open>
  C9. For every collection, id and partial set of fields: when no job has the id,
  \<open>updateJob\<close> returns false and the collection is unchanged; when some job has it,
  \<open>updateJob\<close> returns true, and the first job with that id has exactly the given
  fields replaced and \<open>updated_at\<close> set to the clock, all its other fields and every job
  at another position being unchanged.
\<close>

theorem updateJob_frame:
  "(jobId \<notin> id_job ` set jobs \<longrightarrow> updateJob now jobId u jobs = (False, jobs)) \<and>
   (jobId \<in> id_job ` set jobs \<longrightarrow>
      (\<exists>i<length jobs.
         id_job (jobs ! i) = jobId \<and> (\<forall>k<i. id_job (jobs ! k) \<noteq> jobId) \<and>
         fst (updateJob now jobId u jobs) = True \<and>
         length (snd (updateJob now jobId u jobs)) = length jobs \<and>
         (\<forall>k<length jobs. k \<noteq> i \<longrightarrow> snd (updateJob now jobId u jobs) ! k = jobs ! k) \<and>
         merges_given_fields (jobs ! i) u now (snd (updateJob now jobId u jobs) ! i)))"
proof (intro conjI impI)
  assume "jobId \<notin> id_job ` set jobs"
  then show "updateJob now jobId u jobs = (False, jobs)" by (rule updateJob_absent)
next
  assume "jobId \<in> id_job ` set jobs"
  then obtain i where i: "i < length jobs" "id_job (jobs ! i) = jobId"
    "\<forall>k<i. id_job (jobs ! k) \<noteq> jobId"
    "updateJob now jobId u jobs = (True, jobs[i := spread (jobs ! i) u now])"
    by (rule updateJob_present)
  show "\<exists>i<length jobs.
         id_job (jobs ! i) = jobId \<and> (\<forall>k<i. id_job (jobs ! k) \<noteq> jobId) \<and>
         fst (updateJob now jobId u jobs) = True \<and>
         length (snd (updateJob now jobId u jobs)) = length jobs \<and>
         (\<forall>k<length jobs. k \<noteq> i \<longrightarrow> snd (updateJob now jobId u jobs) ! k = jobs ! k) \<and>
         merges_given_fields (jobs ! i) u now (snd (updateJob now jobId u jobs) ! i)"
  proof (intro exI[of _ i] conjI)
    show "i < length jobs" by (rule i(1))
    show "id_job (jobs ! i) = jobId" by (rule i(2))
    show "\<forall>k<i. id_job (jobs ! k) \<noteq> jobId" by (rule i(3))
    show "fst (updateJob now jobId u jobs) = True" by (simp add: i(4))
    show "length (snd (updateJob now jobId u jobs)) = length jobs" by (simp add: i(4))
    show "\<forall>k<length jobs. k \<noteq> i \<longrightarrow> snd (updateJob now jobId u jobs) ! k = jobs ! k"
      by (simp add: i(4))
    show "merges_given_fields (jobs ! i) u now (snd (updateJob now jobId u jobs) ! i)"
      using i(1) by (simp add: i(4) merges_given_fields_spread)
  qed
qed

theorem updateJob_frame_witness:
  "''zz'' \<notin> id_job ` set [example_job, example_job\<lparr>id_job := ''b''\<rparr>] \<and>
   updateJob 20 ''zz'' (processing_updates ''w1'') [example_job, example_job\<lparr>id_job := ''b''\<rparr>]
     = (False, [example_job, example_job\<lparr>id_job := ''b''\<rparr>]) \<and>
   ''b'' \<in> id_job ` set [example_job, example_job\<lparr>id_job := ''b''\<rparr>] \<and>
   updateJob 20 ''b'' (processing_updates ''w1'') [example_job, example_job\<lparr>id_job := ''b''\<rparr>]
     = (True, [example_job,
               example_job\<lparr>id_job := ''b'', state := PROCESSING, updated_at := 20,
                 worker_id := Some ''w1''\<rparr>])"
  using updateJob_frame [where jobId = "''zz''" and now = 20 and u = "processing_updates ''w1''"
      and jobs = "[example_job, example_job\<lparr>id_job := ''b''\<rparr>]"]
    updateJob_frame [where jobId = "''b''" and now = 20 and u = "processing_updates ''w1''"
      and jobs = "[example_job, example_job\<lparr>id_job := ''b''\<rparr>]"]
  by (simp add: updateJob_def example_job_def processing_updates_def no_updates_def
      spread_def spread_key_def)

subsection \<open>C10: an unvalidated \<open>max_retries\<close>\<close>




end
